theory Spec2Isabelle
  imports Main
begin

section \<open>Data model\<close>

type_synonym bytes = string
type_synonym path = string

text \<open>The \<open>state\<close> option of the module: \<open>choices=['absent', 'present']\<close>.\<close>

datatype state = Present | Absent

text \<open>
  The module object as \<open>main\<close> sees it after \<open>create_ansible_module\<close>: the
  options of \<open>argument_spec\<close> that the module reads, the common file arguments
  (\<open>add_file_common_args=True\<close>) and \<open>module.check_mode\<close>. The owner and group
  options are held as the uid and gid they stand for (\<open>set_owner_if_different\<close> takes
  \<open>int(owner)\<close> or else the uid of the password database, and calls \<open>fail_json\<close> for
  a name it cannot resolve: such a run has no module record here), the mode option as the
  integer it denotes.
\<close>

record module =
  path :: path
  state :: state
  force :: bool
  backup :: bool
  return_content :: bool
  check_mode :: bool
  arg_owner :: "nat option"
  arg_group :: "nat option"
  arg_mode :: "nat option"

text \<open>What \<open>lstat\<close> tells of a file: \<open>st_uid\<close>, \<open>st_gid\<close> and \<open>st_mode\<close> (file type
  and permission bits).\<close>

record file_attrs =
  f_uid :: nat
  f_gid :: nat
  f_mode :: nat

record fs_file =
  content :: bytes
  attrs :: file_attrs

text \<open>
  What a run does, in the order it does it. Every operation on the file system and every
  call into the backend appends its event, so that a trace tells what ran and in which order.
\<close>

datatype event =
  EvSelectBackend | EvLoad | EvCompare | EvGenerate | EvBackup | EvWrite | EvRemove | EvSetAttrs

text \<open>
  What a run cannot change: the directories, the attributes a newly created file gets, the
  suffix \<open>backup_local\<close> appends (process id and time stamp), and which I/O operations
  fail in this environment (\<open>Some msg\<close>: the operation fails with that message):
  reading the target, copying it to its backup, changing it (\<open>write_fault\<close>: replacing its
  bytes, and \<open>lchown\<close> and \<open>chmod\<close> on it alike), and deleting it.
\<close>

record env =
  dirs :: "path set"
  new_file_attrs :: file_attrs
  backup_suffix :: string
  load_fault :: "string option"
  backup_fault :: "string option"
  write_fault :: "string option"
  remove_fault :: "string option"

text \<open>What a run can change: the regular files with their attributes; and its trace.\<close>

record world =
  files :: "path \<rightharpoonup> fs_file"
  trace :: "event list"

text \<open>
  How a call can end other than by returning: \<open>OpenSSLObjectError\<close> is the exception
  \<open>main\<close> catches; \<open>SystemExit_fail_json name msg\<close> is \<open>module.fail_json\<close>, which
  exits the process; \<open>UncaughtException\<close> is any exception nobody catches (an \<open>OSError\<close>, say).
\<close>

datatype exn =
  OpenSSLObjectError string
| SystemExit_fail_json "string option" string
| UncaughtException string

type_synonym 'a io = "world \<Rightarrow> (exn + 'a) \<times> world"

definition return_io :: "'a \<Rightarrow> 'a io" where
  "return_io x = (\<lambda>w. (Inr x, w))"

definition bind_io :: "'a io \<Rightarrow> ('a \<Rightarrow> 'b io) \<Rightarrow> 'b io" where
  "bind_io f g = (\<lambda>w. case f w of (Inl e, w') \<Rightarrow> (Inl e, w') | (Inr x, w') \<Rightarrow> g x w')"

definition log :: "event \<Rightarrow> world \<Rightarrow> world" where
  "log ev w = w\<lparr>trace := trace w @ [ev]\<rparr>"

text \<open>A call into the backend: it is logged, touches no file, and may raise.\<close>

definition backend_call :: "event \<Rightarrow> (exn + 'a) \<Rightarrow> 'a io" where
  "backend_call ev r = (\<lambda>w. (r, log ev w))"

text \<open>
  The module backend object (\<open>module_backends.csr\<close>, not part of the sources at hand) as
  the module uses it: \<open>'b\<close> is the state of the backend object, \<open>'r\<close> the dictionary its
  \<open>dump\<close> returns. The backend belongs to the options of one run, the desired CSR among
  them: \<open>select_backend\<close> is the result of \<open>select_backend(module, backend)\<close> for
  these options.
\<close>

record ('b, 'r) backend =
  select_backend :: "exn + 'b"
  set_existing :: "bytes option \<Rightarrow> 'b \<Rightarrow> 'b"
  needs_regeneration :: "'b \<Rightarrow> exn + bool"
  generate_csr :: "'b \<Rightarrow> exn + 'b"
  get_csr_data :: "'b \<Rightarrow> exn + bytes"
  dump_backend :: "bool \<Rightarrow> 'b \<Rightarrow> 'r"

text \<open>The fields of \<open>CertificateSigningRequestModule\<close> that change during a run.\<close>

record 'b csr_module =
  changed :: bool
  backup_file :: "string option"
  module_backend :: 'b

text \<open>The dictionary \<open>dump\<close> returns: the backend's, updated with three keys.\<close>

record 'r result =
  r_backend :: 'r
  r_filename :: path
  r_changed :: bool
  r_backup_file :: "string option"

datatype 'r outcome =
  ExitJson "'r result"
| FailJson "string option" string
| Traceback string

section \<open>Library functions the module calls\<close>

text \<open>\<open>posixpath.dirname\<close>: the head up to the last slash, trailing slashes stripped
  unless the head is slashes only.\<close>

definition dirname :: "string \<Rightarrow> string" where
  "dirname p =
     (let head = rev (dropWhile (\<lambda>c. c \<noteq> CHR ''/'') (rev p))
      in if head \<noteq> [] \<and> \<not> list_all (\<lambda>c. c = CHR ''/'') head
         then rev (dropWhile (\<lambda>c. c = CHR ''/'') (rev head))
         else head)"

definition isdir :: "env \<Rightarrow> path \<Rightarrow> bool" where
  "isdir E p = (p \<in> dirs E)"

definition exists :: "env \<Rightarrow> path \<Rightarrow> world \<Rightarrow> bool" where
  "exists E p w = (files w p \<noteq> None \<or> p \<in> dirs E)"

text \<open>
  \<open>AnsibleModule.backup_local\<close>: copies the file to a name with a time stamp and returns
  that name; returns the empty string when there is nothing to copy; \<open>fail_json\<close> when the
  copy fails.
\<close>

definition backup_local :: "env \<Rightarrow> path \<Rightarrow> string io" where
  "backup_local E fn = (\<lambda>w.
     case files w fn of
       None \<Rightarrow> (Inr [], log EvBackup w)
     | Some f \<Rightarrow>
         (case backup_fault E of
            Some e \<Rightarrow>
              (Inl (SystemExit_fail_json None
                      (''Could not make backup of '' @ fn @ '' to '' @ fn @ ''.'' @ backup_suffix E @
                       '': '' @ e)), w)
          | None \<Rightarrow>
              (let backupdest = fn @ ''.'' @ backup_suffix E
               in (Inr backupdest, log EvBackup (w\<lparr>files := (files w)(backupdest \<mapsto> f)\<rparr>)))))"

definition check_file_absent_if_check_mode :: "env \<Rightarrow> module \<Rightarrow> path \<Rightarrow> world \<Rightarrow> bool" where
  "check_file_absent_if_check_mode E m p w = (check_mode m \<and> \<not> exists E p w)"

text \<open>\<open>stat.S_IMODE\<close>: the permission bits of a mode; and what \<open>chmod\<close> leaves: the
  file type as it was, the permission bits those of the mode given.\<close>

definition S_IMODE :: "nat \<Rightarrow> nat" where
  "S_IMODE mode = mode mod 4096"

definition chmod :: "nat \<Rightarrow> file_attrs \<Rightarrow> file_attrs" where
  "chmod mode a = a\<lparr>f_mode := f_mode a - S_IMODE (f_mode a) + S_IMODE mode\<rparr>"

text \<open>
  \<open>AnsibleModule.set_owner_if_different\<close>: nothing to do when the option is not given;
  reads the owner (an uncaught \<open>OSError\<close> when the file is not there); when the uid
  differs, check mode only reports it, otherwise \<open>lchown\<close> sets it, and \<open>fail_json\<close>
  when that fails. \<open>set_group_if_different\<close> is the same for the gid.
\<close>

definition set_owner_if_different :: "env \<Rightarrow> module \<Rightarrow> path \<Rightarrow> nat option \<Rightarrow> bool \<Rightarrow> bool io" where
  "set_owner_if_different E m p owner chg = (\<lambda>w.
     case owner of
       None \<Rightarrow> (Inr chg, w)
     | Some uid \<Rightarrow>
         if check_file_absent_if_check_mode E m p w then (Inr True, w)
         else (case files w p of
                 None \<Rightarrow> (Inl (UncaughtException (''OSError: No such file or directory: '' @ p)), w)
               | Some f \<Rightarrow>
                   if f_uid (attrs f) \<noteq> uid then
                     if check_mode m then (Inr True, w)
                     else (case write_fault E of
                             Some e \<Rightarrow> (Inl (SystemExit_fail_json None (''chown failed: '' @ e)), w)
                           | None \<Rightarrow>
                               (Inr True,
                                log EvSetAttrs
                                  (w\<lparr>files := (files w)(p \<mapsto> f\<lparr>attrs := (attrs f)\<lparr>f_uid := uid\<rparr>\<rparr>)\<rparr>)))
                   else (Inr chg, w)))"

definition set_group_if_different :: "env \<Rightarrow> module \<Rightarrow> path \<Rightarrow> nat option \<Rightarrow> bool \<Rightarrow> bool io" where
  "set_group_if_different E m p grp chg = (\<lambda>w.
     case grp of
       None \<Rightarrow> (Inr chg, w)
     | Some gid \<Rightarrow>
         if check_file_absent_if_check_mode E m p w then (Inr True, w)
         else (case files w p of
                 None \<Rightarrow> (Inl (UncaughtException (''OSError: No such file or directory: '' @ p)), w)
               | Some f \<Rightarrow>
                   if f_gid (attrs f) \<noteq> gid then
                     if check_mode m then (Inr True, w)
                     else (case write_fault E of
                             Some e \<Rightarrow> (Inl (SystemExit_fail_json None ''chgrp failed''), w)
                           | None \<Rightarrow>
                               (Inr True,
                                log EvSetAttrs
                                  (w\<lparr>files := (files w)(p \<mapsto> f\<lparr>attrs := (attrs f)\<lparr>f_gid := gid\<rparr>\<rparr>)\<rparr>)))
                   else (Inr chg, w)))"

text \<open>
  \<open>AnsibleModule.set_mode_if_different\<close>: compares the permission bits of the file with
  the mode asked for; when they differ, check mode reports a change; otherwise \<open>chmod\<close> is
  called (its \<open>OSError\<close> is raised again and caught by nobody), and a change is reported
  only if the permission bits after \<open>chmod\<close> are not those before.
\<close>

definition set_mode_if_different :: "env \<Rightarrow> module \<Rightarrow> path \<Rightarrow> nat option \<Rightarrow> bool \<Rightarrow> bool io" where
  "set_mode_if_different E m p mode_arg chg = (\<lambda>w.
     case mode_arg of
       None \<Rightarrow> (Inr chg, w)
     | Some mode \<Rightarrow>
         if check_file_absent_if_check_mode E m p w then (Inr True, w)
         else (case files w p of
                 None \<Rightarrow> (Inl (UncaughtException (''OSError: No such file or directory: '' @ p)), w)
               | Some f \<Rightarrow>
                   (let prev_mode = S_IMODE (f_mode (attrs f))
                    in if prev_mode \<noteq> mode then
                         if check_mode m then (Inr True, w)
                         else (case write_fault E of
                                 Some e \<Rightarrow> (Inl (UncaughtException (''OSError: '' @ e)), w)
                               | None \<Rightarrow>
                                   (let new_mode = S_IMODE (f_mode (chmod mode (attrs f)))
                                    in (Inr (if new_mode \<noteq> prev_mode then True else chg),
                                        log EvSetAttrs
                                          (w\<lparr>files := (files w)(p \<mapsto> f\<lparr>attrs := chmod mode (attrs f)\<rparr>)\<rparr>))))
                       else (Inr chg, w))))"

text \<open>\<open>AnsibleModule.set_fs_attributes_if_different\<close>, for the owner, group and mode of
  the common file arguments.\<close>

definition set_fs_attributes_if_different :: "env \<Rightarrow> module \<Rightarrow> bool \<Rightarrow> bool io" where
  "set_fs_attributes_if_different E m chg =
     bind_io (set_owner_if_different E m (path m) (arg_owner m) chg) (\<lambda>chg1.
     bind_io (set_group_if_different E m (path m) (arg_group m) chg1) (\<lambda>chg2.
     set_mode_if_different E m (path m) (arg_mode m) chg2))"

section \<open>Functions of the collection outside the module\<close>

text \<open>
  Modelled from the spec: \<open>load_file_if_exists\<close> of \<open>module_utils.io\<close> is not among the
  sources. Spec 4.2, \<open>load\<close>: never fails on a missing path (treated as absent); fails
  with an I/O error only on unreadable-but-present paths (permission denied,
  is-a-directory).
\<close>

definition load_file_if_exists :: "env \<Rightarrow> path \<Rightarrow> bytes option io" where
  "load_file_if_exists E p = (\<lambda>w.
     if p \<in> dirs E then (Inl (SystemExit_fail_json None (''Is a directory: '' @ p)), log EvLoad w)
     else case files w p of
       None \<Rightarrow> (Inr None, log EvLoad w)
     | Some f \<Rightarrow>
         (case load_fault E of
            Some e \<Rightarrow> (Inl (SystemExit_fail_json None e), log EvLoad w)
          | None \<Rightarrow> (Inr (Some (content f)), log EvLoad w)))"

text \<open>
  Modelled from the spec: \<open>write_file\<close> of \<open>module_utils.io\<close> is not among the sources.
  Spec 4.2, \<open>write\<close>: atomic, never leaving a half-written file visible at the path; spec 7,
  \<open>IOFailure\<close>: a write failure is fatal. The file is replaced in one step or not at all;
  an existing file keeps its attributes, a new one gets those of the environment.
\<close>

definition write_file :: "env \<Rightarrow> module \<Rightarrow> bytes \<Rightarrow> unit io" where
  "write_file E m data = (\<lambda>w.
     case write_fault E of
       Some e \<Rightarrow> (Inl (SystemExit_fail_json None e), w)
     | None \<Rightarrow>
         (let a = (case files w (path m) of None \<Rightarrow> new_file_attrs E | Some f \<Rightarrow> attrs f)
          in (Inr (), log EvWrite (w\<lparr>files := (files w)(path m \<mapsto> \<lparr>content = data, attrs = a\<rparr>)\<rparr>))))"

text \<open>
  Modelled from the spec: \<open>OpenSSLObject.remove\<close> of \<open>module_utils.crypto.support\<close> is
  not among the sources. Spec 4.2, \<open>remove\<close>: deletes the file; absence of the file is not
  an error. Spec 4.1: side effects are suppressed entirely under Simulate mode except that
  the decision is still computed and reported. Spec 7: a delete failure is fatal.
\<close>

definition OpenSSLObject_remove :: "env \<Rightarrow> module \<Rightarrow> 'b csr_module \<Rightarrow> 'b csr_module io" where
  "OpenSSLObject_remove E m self = (\<lambda>w.
     if check_mode m then
       (Inr (if exists E (path m) w then self\<lparr>changed := True\<rparr> else self), w)
     else case files w (path m) of
       None \<Rightarrow> (Inr self, w)
     | Some f \<Rightarrow>
         (case remove_fault E of
            Some e \<Rightarrow> (Inl (OpenSSLObjectError e), w)
          | None \<Rightarrow> (Inr (self\<lparr>changed := True\<rparr>),
                     log EvRemove (w\<lparr>files := (files w)(path m := None)\<rparr>))))"

section \<open>The module: \<open>CertificateSigningRequestModule\<close> and \<open>main\<close>\<close>

definition init :: "('b, 'r) backend \<Rightarrow> env \<Rightarrow> module \<Rightarrow> 'b \<Rightarrow> 'b csr_module io" where
  "init B E m b =
     bind_io (load_file_if_exists E (path m)) (\<lambda>data.
     return_io \<lparr>changed = False, backup_file = None, module_backend = set_existing B data b\<rparr>)"

text \<open>The body of \<open>if not self.check_mode:\<close> in \<open>generate\<close>.\<close>

definition generate_apply :: "('b, 'r) backend \<Rightarrow> env \<Rightarrow> module \<Rightarrow> 'b csr_module \<Rightarrow> 'b csr_module io" where
  "generate_apply B E m self =
     bind_io (backend_call EvGenerate (generate_csr B (module_backend self))) (\<lambda>b'.
     bind_io (backend_call EvGenerate (get_csr_data B b')) (\<lambda>result.
     bind_io (if backup m
              then bind_io (backup_local E (path m)) (\<lambda>bf.
                     return_io (self\<lparr>backup_file := Some bf, module_backend := b'\<rparr>))
              else return_io (self\<lparr>module_backend := b'\<rparr>)) (\<lambda>self'.
     bind_io (write_file E m result) (\<lambda>_.
     return_io self'))))"

text \<open>The first statement of \<open>generate\<close>: \<open>if self.force or ...needs_regeneration():\<close>.\<close>

definition regenerate :: "('b, 'r) backend \<Rightarrow> env \<Rightarrow> module \<Rightarrow> 'b csr_module \<Rightarrow> 'b csr_module io" where
  "regenerate B E m self =
     bind_io (if force m then return_io True
              else backend_call EvCompare (needs_regeneration B (module_backend self))) (\<lambda>regen.
     if regen
     then bind_io (if \<not> check_mode m then generate_apply B E m self else return_io self)
            (\<lambda>self'. return_io (self'\<lparr>changed := True\<rparr>))
     else return_io self)"

text \<open>The rest of \<open>generate\<close>, from \<open>file_args = ...\<close> on.\<close>

definition set_file_attributes :: "env \<Rightarrow> module \<Rightarrow> 'b csr_module \<Rightarrow> 'b csr_module io" where
  "set_file_attributes E m self = (\<lambda>w.
     if check_file_absent_if_check_mode E m (path m) w
     then (Inr (self\<lparr>changed := True\<rparr>), w)
     else bind_io (set_fs_attributes_if_different E m (changed self))
            (\<lambda>chg. return_io (self\<lparr>changed := chg\<rparr>)) w)"

definition generate :: "('b, 'r) backend \<Rightarrow> env \<Rightarrow> module \<Rightarrow> 'b csr_module \<Rightarrow> 'b csr_module io" where
  "generate B E m self = bind_io (regenerate B E m self) (set_file_attributes E m)"

definition remove :: "('b, 'r) backend \<Rightarrow> env \<Rightarrow> module \<Rightarrow> 'b csr_module \<Rightarrow> 'b csr_module io" where
  "remove B E m self =
     (let self0 = self\<lparr>module_backend := set_existing B None (module_backend self)\<rparr>
      in bind_io (if backup m \<and> \<not> check_mode m
                  then bind_io (backup_local E (path m)) (\<lambda>bf. return_io (self0\<lparr>backup_file := Some bf\<rparr>))
                  else return_io self0) (\<lambda>self1.
         OpenSSLObject_remove E m self1))"

definition dump :: "('b, 'r) backend \<Rightarrow> module \<Rightarrow> 'b csr_module \<Rightarrow> 'r result" where
  "dump B m self =
     \<lparr>r_backend = dump_backend B (return_content m) (module_backend self),
      r_filename = path m,
      r_changed = changed self,
      r_backup_file = (case backup_file self of
                         None \<Rightarrow> None
                       | Some bf \<Rightarrow> if bf \<noteq> [] then Some bf else None)\<rparr>"

text \<open>The \<open>try\<close> block of \<open>main\<close>.\<close>

definition run :: "('b, 'r) backend \<Rightarrow> env \<Rightarrow> module \<Rightarrow> 'r result io" where
  "run B E m =
     bind_io (backend_call EvSelectBackend (select_backend B)) (\<lambda>b.
     bind_io (init B E m b) (\<lambda>csr.
     bind_io (if state m = Present then generate B E m csr else remove B E m csr) (\<lambda>csr'.
     return_io (dump B m csr'))))"

definition base_dir :: "module \<Rightarrow> path" where
  "base_dir m = (if dirname (path m) = [] then ''.'' else dirname (path m))"

definition main :: "('b, 'r) backend \<Rightarrow> env \<Rightarrow> module \<Rightarrow> world \<Rightarrow> 'r outcome \<times> world" where
  "main B E m w =
     (if \<not> isdir E (base_dir m)
      then (FailJson (Some (base_dir m))
              (''The directory '' @ base_dir m @ '' does not exist or the file is not a directory''), w)
      else case run B E m w of
             (Inr r, w') \<Rightarrow> (ExitJson r, w')
           | (Inl (OpenSSLObjectError msg), w') \<Rightarrow> (FailJson None msg, w')
           | (Inl (SystemExit_fail_json n msg), w') \<Rightarrow> (FailJson n msg, w')
           | (Inl (UncaughtException e), w') \<Rightarrow> (Traceback e, w'))"

section \<open>The backend\<close>

text \<open>
  The backend capability of spec 4.3, for one desired specification: parsing existing bytes
  (\<open>None\<close>: they cannot be parsed), \<open>matches\<close>, \<open>build\<close> (which may signal
  \<open>InvalidSpecification\<close>, \<open>SigningKeyUnavailable\<close> or \<open>UnsupportedOperation\<close>),
  \<open>serialize\<close> and \<open>summarize\<close>.
\<close>

record ('c, 's) capability =
  parse :: "bytes \<Rightarrow> 'c option"
  matches :: "'c \<Rightarrow> bool"
  build :: "exn + 'c"
  serialize :: "'c \<Rightarrow> bytes"
  summarize :: "'c \<Rightarrow> 's"

record 'c backend_state =
  existing_csr_bytes :: "bytes option"
  csr :: "'c option"

record 's backend_dump =
  summary :: "'s option"
  csr_content :: "bytes option"

text \<open>
  Modelled from the spec: the backend object of \<open>module_backends.csr\<close> is not among the
  sources. Spec 4.1: a missing artifact is regenerated; any parse failure of existing bytes is
  treated as absent (eligible for regeneration, not a fatal error); otherwise mismatch is
  determined entirely by the comparison function. Spec 4.1, regenerate: construct a new
  artifact via the backend, serialize it. Spec 3 and 6: the output record holds a structured
  summary of the artifact and, when asked for, its serialized content.
\<close>

definition csr_backend :: "('c, 's) capability \<Rightarrow> ('c backend_state, 's backend_dump) backend" where
  "csr_backend C =
     \<lparr>select_backend = Inr \<lparr>existing_csr_bytes = None, csr = None\<rparr>,
      set_existing = (\<lambda>data b. b\<lparr>existing_csr_bytes := data\<rparr>),
      needs_regeneration = (\<lambda>b.
        Inr (case existing_csr_bytes b of
               None \<Rightarrow> True
             | Some data \<Rightarrow> (case parse C data of None \<Rightarrow> True | Some c \<Rightarrow> \<not> matches C c))),
      generate_csr = (\<lambda>b. case build C of Inl e \<Rightarrow> Inl e | Inr c \<Rightarrow> Inr (b\<lparr>csr := Some c\<rparr>)),
      get_csr_data = (\<lambda>b.
        case csr b of
          None \<Rightarrow> Inl (UncaughtException ''no CSR generated'')
        | Some c \<Rightarrow> Inr (serialize C c)),
      dump_backend = (\<lambda>include_csr b.
        (let csr_bytes = (case csr b of None \<Rightarrow> existing_csr_bytes b | Some c \<Rightarrow> Some (serialize C c))
         in \<lparr>summary = (case csr_bytes of
                          None \<Rightarrow> None
                        | Some data \<Rightarrow> map_option (summarize C) (parse C data)),
             csr_content = (if include_csr then csr_bytes else None)\<rparr>))\<rparr>"

section \<open>Notions the properties are stated with\<close>

text \<open>The bytes at the target path, if a file is there.\<close>

definition existing_bytes :: "module \<Rightarrow> world \<Rightarrow> bytes option" where
  "existing_bytes m w = map_option content (files w (path m))"

text \<open>
  The regeneration decision in the spec's words: force is true, or the backend's comparison
  reports that the existing artifact does not satisfy the desired specification.
\<close>

definition regeneration_decision :: "('b, 'r) backend \<Rightarrow> module \<Rightarrow> world \<Rightarrow> bool" where
  "regeneration_decision B m w =
     (force m \<or>
      (case select_backend B of
         Inl e \<Rightarrow> False
       | Inr b \<Rightarrow> needs_regeneration B (set_existing B (existing_bytes m w) b) = Inr True))"

text \<open>The module object when \<open>__init__\<close> has returned.\<close>

definition initial :: "('b, 'r) backend \<Rightarrow> module \<Rightarrow> world \<Rightarrow> 'b \<Rightarrow> 'b csr_module" where
  "initial B m w b =
     \<lparr>changed = False, backup_file = None, module_backend = set_existing B (existing_bytes m w) b\<rparr>"

text \<open>The attributes of a file once the owner, group and mode asked for are set.\<close>

definition wanted_attrs :: "module \<Rightarrow> file_attrs \<Rightarrow> file_attrs" where
  "wanted_attrs m a =
     \<lparr>f_uid = (case arg_owner m of None \<Rightarrow> f_uid a | Some v \<Rightarrow> v),
      f_gid = (case arg_group m of None \<Rightarrow> f_gid a | Some v \<Rightarrow> v),
      f_mode = (case arg_mode m of None \<Rightarrow> f_mode a | Some v \<Rightarrow> f_mode (chmod v a))\<rparr>"

text \<open>What check mode compares: the owner, the group, and the permission bits with the
  mode option as it is given.\<close>

definition reported_differs :: "module \<Rightarrow> file_attrs \<Rightarrow> bool" where
  "reported_differs m a =
     ((case arg_owner m of None \<Rightarrow> False | Some v \<Rightarrow> f_uid a \<noteq> v) \<or>
      (case arg_group m of None \<Rightarrow> False | Some v \<Rightarrow> f_gid a \<noteq> v) \<or>
      (case arg_mode m of None \<Rightarrow> False | Some v \<Rightarrow> S_IMODE (f_mode a) \<noteq> v))"

text \<open>From one world to the next only attributes changed: every file has the bytes it had,
  and the trace grew by attribute events only.\<close>

definition attrs_only :: "world \<Rightarrow> world \<Rightarrow> bool" where
  "attrs_only w w' =
     ((\<forall>q. map_option content (files w' q) = map_option content (files w q)) \<and>
      (\<exists>es. trace w' = trace w @ es \<and> set es \<subseteq> {EvSetAttrs}))"

text \<open>An operation relates every world to the world it leaves by \<open>R\<close>, however it ends.\<close>

definition keeps :: "(world \<Rightarrow> world \<Rightarrow> bool) \<Rightarrow> 'a io \<Rightarrow> bool" where
  "keeps R f = (\<forall>w. R w (snd (f w)))"

text \<open>From one world to the next no file changed in any way.\<close>

definition same_files :: "world \<Rightarrow> world \<Rightarrow> bool" where
  "same_files w w' = (files w' = files w)"

text \<open>
  The target does not hold a matching artifact: it is absent, cannot be parsed, or does not
  match the desired specification.
\<close>

definition needs_new :: "('c, 's) capability \<Rightarrow> module \<Rightarrow> world \<Rightarrow> bool" where
  "needs_new C m w =
     (case files w (path m) of
        None \<Rightarrow> True
      | Some f \<Rightarrow> (case parse C (content f) of None \<Rightarrow> True | Some x \<Rightarrow> \<not> matches C x))"

text \<open>
  The error, if any, of the backend calls a run makes on the existing bytes \<open>data\<close>, in the
  order \<open>main\<close>, \<open>generate\<close> and \<open>remove\<close> make them: \<open>select_backend\<close>; then, for
  state present, \<open>needs_regeneration\<close> unless force is set, and \<open>generate_csr\<close> and
  \<open>get_csr_data\<close> when regeneration is due outside check mode.
\<close>

definition backend_error :: "('b, 'r) backend \<Rightarrow> module \<Rightarrow> bytes option \<Rightarrow> exn option" where
  "backend_error B m data =
     (case select_backend B of
        Inl e \<Rightarrow> Some e
      | Inr b \<Rightarrow>
          if state m = Present then
            (case (if force m then Inr True else needs_regeneration B (set_existing B data b)) of
               Inl e \<Rightarrow> Some e
             | Inr regen \<Rightarrow>
                 if regen \<and> \<not> check_mode m then
                   (case generate_csr B (set_existing B data b) of
                      Inl e \<Rightarrow> Some e
                    | Inr b' \<Rightarrow> (case get_csr_data B b' of Inl e \<Rightarrow> Some e | Inr result \<Rightarrow> None))
                 else None)
          else None)"

text \<open>
  The bytes the backend generates in a run: what \<open>get_csr_data\<close> returns after
  \<open>generate_csr\<close>, on the backend that was given the existing bytes.
\<close>

definition generated_bytes :: "('b, 'r) backend \<Rightarrow> module \<Rightarrow> world \<Rightarrow> bytes option" where
  "generated_bytes B m w =
     (case select_backend B of
        Inl e \<Rightarrow> None
      | Inr b \<Rightarrow>
          (case generate_csr B (set_existing B (existing_bytes m w) b) of
             Inl e \<Rightarrow> None
           | Inr b' \<Rightarrow> (case get_csr_data B b' of Inl e \<Rightarrow> None | Inr result \<Rightarrow> Some result)))"

text \<open>
  In a trace, every write and every removal comes after a backup: \<open>seen\<close> tells whether
  a backup has completed before the events at hand.
\<close>

fun backup_precedes :: "bool \<Rightarrow> event list \<Rightarrow> bool" where
  "backup_precedes seen [] = True"
| "backup_precedes seen (ev # evs) =
     (if ev = EvBackup then backup_precedes True evs
      else if ev = EvWrite \<or> ev = EvRemove then seen \<and> backup_precedes seen evs
      else backup_precedes seen evs)"

text \<open>Whatever world an operation starts in, the events it appends are in that order.\<close>

definition extends :: "'a io \<Rightarrow> bool" where
  "extends f = (\<forall>w. \<exists>es. trace (snd (f w)) = trace w @ es \<and> backup_precedes False es)"

text \<open>
  From one world to the next the file at \<open>p\<close>, if there was one, kept its bytes, and no
  backup, write or removal took place.
\<close>

definition undisturbed :: "path \<Rightarrow> world \<Rightarrow> world \<Rightarrow> bool" where
  "undisturbed p w w' =
     (files w p \<noteq> None \<longrightarrow>
        map_option content (files w' p) = map_option content (files w p) \<and>
        (\<exists>es. trace w' = trace w @ es \<and> EvBackup \<notin> set es \<and> EvWrite \<notin> set es \<and> EvRemove \<notin> set es))"

section \<open>Sample inputs\<close>

text \<open>
  A small backend capability to run the module on: a CSR is its subject, serialized behind
  the tag \<open>CSR:\<close>; the desired subject is \<open>CN=example.com\<close>.
\<close>

definition example_capability :: "(string, string) capability" where
  "example_capability =
     \<lparr>parse = (\<lambda>data. if take 4 data = ''CSR:'' then Some (drop 4 data) else None),
      matches = (\<lambda>c. c = ''CN=example.com''),
      build = Inr ''CN=example.com'',
      serialize = (\<lambda>c. ''CSR:'' @ c),
      summarize = (\<lambda>c. c)\<rparr>"

definition example_module :: module where
  "example_module =
     \<lparr>path = ''/etc/ssl/csr/www.csr'', state = Present, force = False, backup = False,
      return_content = False, check_mode = False,
      arg_owner = None, arg_group = None, arg_mode = None\<rparr>"

definition root_attrs :: file_attrs where
  "root_attrs = \<lparr>f_uid = 0, f_gid = 0, f_mode = 33188\<rparr>"

text \<open>An environment with the directory, where no operation fails; and one without.\<close>

definition example_env :: env where
  "example_env =
     \<lparr>dirs = {''/etc/ssl/csr'', ''.''}, new_file_attrs = root_attrs,
      backup_suffix = ''4242.2019-03-09@11:22:33~'',
      load_fault = None, backup_fault = None, write_fault = None, remove_fault = None\<rparr>"

definition bare_env :: env where
  "bare_env = example_env\<lparr>dirs := {}\<rparr>"

text \<open>No file; and the file holding given bytes.\<close>

definition empty_world :: world where
  "empty_world = \<lparr>files = Map.empty, trace = []\<rparr>"

definition file_world :: "bytes \<Rightarrow> world" where
  "file_world data =
     \<lparr>files = [''/etc/ssl/csr/www.csr'' \<mapsto> \<lparr>content = data, attrs = root_attrs\<rparr>], trace = []\<rparr>"

section \<open>Properties\<close>

subsection \<open>Running the module on given inputs\<close>

lemmas run_defs = main_def run_def init_def generate_def regenerate_def set_file_attributes_def
  generate_apply_def remove_def dump_def bind_io_def return_io_def backend_call_def log_def
  load_file_if_exists_def write_file_def backup_local_def set_owner_if_different_def
  set_group_if_different_def set_mode_if_different_def S_IMODE_def chmod_def
  set_fs_attributes_if_different_def check_file_absent_if_check_mode_def exists_def
  OpenSSLObject_remove_def isdir_def base_dir_def dirname_def csr_backend_def Let_def

lemmas example_defs = example_env_def example_module_def example_capability_def empty_world_def
  file_world_def root_attrs_def bare_env_def

subsection \<open>How the operations compose\<close>

lemma bind_io_Inr:
  "bind_io f g w = (Inr y, w'') \<longleftrightarrow> (\<exists>x w'. f w = (Inr x, w') \<and> g x w' = (Inr y, w''))"
  by (auto simp: bind_io_def split: prod.splits sum.splits)

lemma bind_io_ok: "f w = (Inr x, w') \<Longrightarrow> bind_io f g w = g x w'"
  by (simp add: bind_io_def)

lemma bind_io_fail: "f w = (Inl e, w') \<Longrightarrow> bind_io f g w = (Inl e, w')"
  by (simp add: bind_io_def)

lemma keeps_bind:
  assumes tr: "\<And>a b c. R a b \<Longrightarrow> R b c \<Longrightarrow> R a c"
    and f: "keeps R f" and g: "\<And>x. keeps R (g x)"
  shows "keeps R (bind_io f g)"
  unfolding keeps_def
proof
  fix w
  obtain r w' where fw: "f w = (r, w')" by (cases "f w")
  have 1: "R w w'" using f fw by (auto simp: keeps_def dest: spec [of _ w])
  show "R w (snd (bind_io f g w))"
  proof (cases r)
    case (Inl e)
    then show ?thesis using fw 1 by (simp add: bind_io_fail)
  next
    case (Inr x)
    have "R w' (snd (g x w'))" using g [of x] by (simp add: keeps_def)
    then show ?thesis using fw Inr 1 tr by (auto simp: bind_io_ok)
  qed
qed

lemma keeps_return: "(\<And>w. R w w) \<Longrightarrow> keeps R (return_io x)"
  by (simp add: keeps_def return_io_def)

lemma keeps_backend_call: "(\<And>w. R w (log ev w)) \<Longrightarrow> keeps R (backend_call ev r)"
  by (simp add: keeps_def backend_call_def)

lemma attrs_only_refl: "attrs_only w w"
  by (simp add: attrs_only_def)

lemma attrs_only_trans: "attrs_only a b \<Longrightarrow> attrs_only b c \<Longrightarrow> attrs_only a c"
  by (fastforce simp: attrs_only_def)

lemma set_owner_attrs_only: "keeps attrs_only (set_owner_if_different E m p want chg)"
  by (auto simp: keeps_def set_owner_if_different_def attrs_only_def log_def split: option.splits)

lemma set_group_attrs_only: "keeps attrs_only (set_group_if_different E m p want chg)"
  by (auto simp: keeps_def set_group_if_different_def attrs_only_def log_def split: option.splits)

lemma set_mode_attrs_only: "keeps attrs_only (set_mode_if_different E m p want chg)"
  by (auto simp: keeps_def set_mode_if_different_def attrs_only_def log_def Let_def
      split: option.splits)

lemma set_fs_attrs_only: "keeps attrs_only (set_fs_attributes_if_different E m chg)"
  unfolding set_fs_attributes_if_different_def
  by (intro keeps_bind set_owner_attrs_only set_group_attrs_only set_mode_attrs_only)
     (erule (1) attrs_only_trans)+

lemma set_owner_mono: "set_owner_if_different E m p want True w = (Inr c, w') \<Longrightarrow> c"
  by (auto simp: set_owner_if_different_def split: option.splits if_splits)

lemma set_group_mono: "set_group_if_different E m p want True w = (Inr c, w') \<Longrightarrow> c"
  by (auto simp: set_group_if_different_def split: option.splits if_splits)

lemma set_mode_mono: "set_mode_if_different E m p want True w = (Inr c, w') \<Longrightarrow> c"
  by (auto simp: set_mode_if_different_def Let_def split: option.splits if_splits)

lemma set_fs_mono: "set_fs_attributes_if_different E m True w = (Inr c, w') \<Longrightarrow> c"
  unfolding set_fs_attributes_if_different_def bind_io_Inr
  by (auto dest!: set_owner_mono set_group_mono set_mode_mono)

lemma load_Inr:
  "load_file_if_exists E p w = (Inr data, w') \<Longrightarrow>
     data = map_option content (files w p) \<and> w' = log EvLoad w \<and> p \<notin> dirs E"
  by (auto simp: load_file_if_exists_def split: if_splits option.splits)

lemma load_snd: "snd (load_file_if_exists E p w) = log EvLoad w"
  by (auto simp: load_file_if_exists_def split: if_splits option.splits)

lemma write_Inr:
  "write_file E m data w = (Inr u, w') \<Longrightarrow>
     trace w' = trace w @ [EvWrite] \<and> map_option content (files w' (path m)) = Some data"
  by (auto simp: write_file_def log_def Let_def split: option.splits)

lemma generate_apply_Inr:
  "generate_apply B E m self w = (Inr self', w') \<Longrightarrow>
     EvWrite \<in> set (trace w') \<and> changed self' = changed self"
  by (auto simp: generate_apply_def bind_io_Inr return_io_def backend_call_def dest!: write_Inr split: if_splits)

lemma set_fs_snd: "set_fs_attributes_if_different E m chg w = (r, w') \<Longrightarrow> attrs_only w w'"
  using set_fs_attrs_only [of E m chg] by (auto simp: keeps_def dest: spec [of _ w])

lemma attrs_only_write: "attrs_only w w' \<Longrightarrow> EvWrite \<in> set (trace w') \<longleftrightarrow> EvWrite \<in> set (trace w)"
  by (auto simp: attrs_only_def)

lemma regenerate_Inr:
  assumes r: "regenerate B E m self w = (Inr self1, w1)"
  defines "d \<equiv> force m \<or> needs_regeneration B (module_backend self) = Inr True"
  shows "(d \<longrightarrow> changed self1) \<and>
         (\<not> d \<longrightarrow> self1 = self \<and> files w1 = files w \<and> trace w1 = trace w @ [EvCompare]) \<and>
         (\<not> check_mode m \<longrightarrow> (EvWrite \<in> set (trace w1) \<longleftrightarrow> d \<or> EvWrite \<in> set (trace w))) \<and>
         (check_mode m \<longrightarrow> files w1 = files w)"
proof (cases "force m")
  case True
  then show ?thesis using r unfolding d_def
    by (cases "check_mode m")
       (auto simp: regenerate_def bind_io_Inr return_io_def dest!: generate_apply_Inr)
next
  case False
  then obtain regen where n: "needs_regeneration B (module_backend self) = Inr regen"
    using r by (auto simp: regenerate_def bind_io_Inr backend_call_def)
  show ?thesis
  proof (cases regen)
    case True
    then show ?thesis using r n False unfolding d_def
      by (cases "check_mode m")
         (auto simp: regenerate_def bind_io_Inr return_io_def backend_call_def log_def
               dest!: generate_apply_Inr)
  next
    case f: False
    then show ?thesis using r n False unfolding d_def
      by (auto simp: regenerate_def bind_io_Inr return_io_def backend_call_def log_def)
  qed
qed

lemma set_fs_check: "check_mode m \<Longrightarrow> snd (set_fs_attributes_if_different E m chg w) = w"
  by (auto simp: set_fs_attributes_if_different_def bind_io_def set_owner_if_different_def
      set_group_if_different_def set_mode_if_different_def Let_def
      split: option.splits prod.splits sum.splits)

lemma set_file_attributes_Inr:
  assumes "set_file_attributes E m self w = (Inr self', w')"
  shows "attrs_only w w' \<and> (changed self \<longrightarrow> changed self') \<and>
         module_backend self' = module_backend self \<and> backup_file self' = backup_file self \<and>
         (check_mode m \<longrightarrow> w' = w)"
proof (cases "check_file_absent_if_check_mode E m (path m) w")
  case True
  then show ?thesis using assms by (auto simp: set_file_attributes_def attrs_only_refl)
next
  case False
  then obtain chg where c: "set_fs_attributes_if_different E m (changed self) w = (Inr chg, w')"
    and s: "self' = self\<lparr>changed := chg\<rparr>"
    using assms by (auto simp: set_file_attributes_def bind_io_Inr return_io_def)
  have "changed self \<longrightarrow> chg" using c set_fs_mono by (cases "changed self") auto
  moreover have "check_mode m \<longrightarrow> w' = w" using set_fs_check [of m E "changed self" w] c by simp
  ultimately show ?thesis using s set_fs_snd [OF c] by simp
qed

lemma initial_log [simp]: "initial B m (log ev w) b = initial B m w b"
  by (simp add: initial_def existing_bytes_def log_def)

lemma init_Inr:
  "init B E m b w = (Inr self, w') \<Longrightarrow>
     self = initial B m w b \<and> w' = log EvLoad w \<and> path m \<notin> dirs E"
  by (auto simp: init_def bind_io_Inr return_io_def initial_def existing_bytes_def dest!: load_Inr)

lemma run_Inr:
  assumes "run B E m w = (Inr r, w')"
  obtains b self' where "select_backend B = Inr b" "path m \<notin> dirs E" "r = dump B m self'"
    "init B E m b (log EvSelectBackend w) = (Inr (initial B m w b), log EvLoad (log EvSelectBackend w))"
    "(if state m = Present then generate B E m (initial B m w b) else remove B E m (initial B m w b))
       (log EvLoad (log EvSelectBackend w)) = (Inr self', w')"
proof -
  from assms obtain b csr w1 self' where b: "select_backend B = Inr b"
    and i: "init B E m b (log EvSelectBackend w) = (Inr csr, w1)"
    and s: "(if state m = Present then generate B E m csr else remove B E m csr) w1 = (Inr self', w')"
    and r: "r = dump B m self'"
    by (auto simp: run_def bind_io_Inr backend_call_def return_io_def)
  from init_Inr [OF i] have "csr = initial B m w b" "w1 = log EvLoad (log EvSelectBackend w)"
    "path m \<notin> dirs E" by simp_all
  with b s r i that show thesis by blast
qed

lemma main_ExitJson:
  "main B E m w = (ExitJson r, w') \<longleftrightarrow> isdir E (base_dir m) \<and> run B E m w = (Inr r, w')"
  by (auto simp: main_def split: prod.splits sum.splits exn.splits)

lemma existing_bytes_log [simp]: "existing_bytes m (log ev w) = existing_bytes m w"
  by (simp add: existing_bytes_def log_def)

lemma same_files_trans: "same_files a b \<Longrightarrow> same_files b c \<Longrightarrow> same_files a c"
  by (simp add: same_files_def)

lemma same_files_log: "same_files w (log ev w)"
  by (simp add: same_files_def log_def)

lemma load_same_files: "keeps same_files (load_file_if_exists E p)"
  by (simp add: keeps_def load_snd same_files_log)

lemma S_IMODE_chmod [simp]: "S_IMODE (f_mode (chmod v a)) = S_IMODE v"
  by (simp add: S_IMODE_def chmod_def minus_mod_eq_mult_div)

lemma chmod_same: "S_IMODE (f_mode a) = S_IMODE v \<Longrightarrow> chmod v a = a"
  by (simp add: S_IMODE_def chmod_def)

lemma chmod_differs: "chmod v a \<noteq> a \<longleftrightarrow> S_IMODE v \<noteq> S_IMODE (f_mode a)"
proof
  assume "chmod v a \<noteq> a"
  then show "S_IMODE v \<noteq> S_IMODE (f_mode a)" using chmod_same [of a v] by auto
next
  assume "S_IMODE v \<noteq> S_IMODE (f_mode a)"
  show "chmod v a \<noteq> a"
  proof
    assume "chmod v a = a"
    then have "S_IMODE (f_mode (chmod v a)) = S_IMODE (f_mode a)" by simp
    then show False using \<open>S_IMODE v \<noteq> S_IMODE (f_mode a)\<close> by (simp only: S_IMODE_chmod)
  qed
qed

lemma set_owner_apply:
  assumes "\<not> check_mode m" "files w p = Some f"
  shows "(write_fault E \<noteq> None \<and> (\<exists>e. set_owner_if_different E m p want chg w = (Inl e, w))) \<or>
         (\<exists>w'. set_owner_if_different E m p want chg w =
                  (Inr (chg \<or> (case want of None \<Rightarrow> False | Some v \<Rightarrow> f_uid (attrs f) \<noteq> v)), w') \<and>
               files w' = (files w)(p \<mapsto> f\<lparr>attrs := (case want of None \<Rightarrow> attrs f
                                                        | Some v \<Rightarrow> (attrs f)\<lparr>f_uid := v\<rparr>)\<rparr>) \<and>
               attrs_only w w')"
  using assms
  by (cases want; cases "write_fault E")
     (auto simp: set_owner_if_different_def check_file_absent_if_check_mode_def attrs_only_def log_def
      intro!: ext)

lemma set_group_apply:
  assumes "\<not> check_mode m" "files w p = Some f"
  shows "(write_fault E \<noteq> None \<and> (\<exists>e. set_group_if_different E m p want chg w = (Inl e, w))) \<or>
         (\<exists>w'. set_group_if_different E m p want chg w =
                  (Inr (chg \<or> (case want of None \<Rightarrow> False | Some v \<Rightarrow> f_gid (attrs f) \<noteq> v)), w') \<and>
               files w' = (files w)(p \<mapsto> f\<lparr>attrs := (case want of None \<Rightarrow> attrs f
                                                        | Some v \<Rightarrow> (attrs f)\<lparr>f_gid := v\<rparr>)\<rparr>) \<and>
               attrs_only w w')"
  using assms
  by (cases want; cases "write_fault E")
     (auto simp: set_group_if_different_def check_file_absent_if_check_mode_def attrs_only_def log_def
      intro!: ext)

lemma set_mode_apply:
  assumes "\<not> check_mode m" "files w p = Some f"
  shows "(write_fault E \<noteq> None \<and> (\<exists>e. set_mode_if_different E m p want chg w = (Inl e, w))) \<or>
         (\<exists>w'. set_mode_if_different E m p want chg w =
                  (Inr (chg \<or> (case want of None \<Rightarrow> False
                               | Some v \<Rightarrow> S_IMODE v \<noteq> S_IMODE (f_mode (attrs f)))), w') \<and>
               files w' = (files w)(p \<mapsto> f\<lparr>attrs := (case want of None \<Rightarrow> attrs f
                                                        | Some v \<Rightarrow> chmod v (attrs f))\<rparr>) \<and>
               attrs_only w w')"
proof (cases want)
  case None
  then show ?thesis using assms
    by (auto simp: set_mode_if_different_def attrs_only_def intro!: ext)
next
  case (Some v)
  show ?thesis
  proof (cases "S_IMODE (f_mode (attrs f)) = v")
    case True
    then have "S_IMODE v = S_IMODE (f_mode (attrs f))" by (auto simp: S_IMODE_def)
    then show ?thesis using assms Some True chmod_same [of "attrs f" v]
      by (auto simp: set_mode_if_different_def check_file_absent_if_check_mode_def attrs_only_def
          Let_def intro!: ext)
  next
    case False
    then show ?thesis using assms Some
      by (cases "write_fault E")
         (auto simp: set_mode_if_different_def check_file_absent_if_check_mode_def attrs_only_def
            log_def Let_def)
  qed
qed

lemma chmod_mode_eq: "f_mode (chmod v a) = f_mode a \<longleftrightarrow> S_IMODE v = S_IMODE (f_mode a)"
proof -
  have "chmod v a = a \<longleftrightarrow> f_mode (chmod v a) = f_mode a"
    by (cases a) (simp add: chmod_def)
  then show ?thesis using chmod_differs [of v a] by blast
qed

lemma wanted_attrs_differs:
  "wanted_attrs m a \<noteq> a \<longleftrightarrow>
     (case arg_owner m of None \<Rightarrow> False | Some v \<Rightarrow> f_uid a \<noteq> v) \<or>
     (case arg_group m of None \<Rightarrow> False | Some v \<Rightarrow> f_gid a \<noteq> v) \<or>
     (case arg_mode m of None \<Rightarrow> False | Some v \<Rightarrow> S_IMODE v \<noteq> S_IMODE (f_mode a))"
proof -
  have "wanted_attrs m a = a \<longleftrightarrow>
          f_uid (wanted_attrs m a) = f_uid a \<and> f_gid (wanted_attrs m a) = f_gid a \<and>
          f_mode (wanted_attrs m a) = f_mode a"
    by (cases a, cases "wanted_attrs m a") auto
  moreover have "f_uid (wanted_attrs m a) = f_uid a \<longleftrightarrow>
      \<not> (case arg_owner m of None \<Rightarrow> False | Some v \<Rightarrow> f_uid a \<noteq> v)"
    by (auto simp: wanted_attrs_def split: option.splits)
  moreover have "f_gid (wanted_attrs m a) = f_gid a \<longleftrightarrow>
      \<not> (case arg_group m of None \<Rightarrow> False | Some v \<Rightarrow> f_gid a \<noteq> v)"
    by (auto simp: wanted_attrs_def split: option.splits)
  moreover have "f_mode (wanted_attrs m a) = f_mode a \<longleftrightarrow>
      \<not> (case arg_mode m of None \<Rightarrow> False | Some v \<Rightarrow> S_IMODE v \<noteq> S_IMODE (f_mode a))"
    by (cases "arg_mode m") (simp_all add: wanted_attrs_def chmod_mode_eq)
  ultimately show ?thesis by blast
qed

lemma set_fs_apply_cases:
  assumes c: "\<not> check_mode m" and f: "files w (path m) = Some f"
  shows "(write_fault E \<noteq> None \<and> (\<exists>e w'. set_fs_attributes_if_different E m chg w = (Inl e, w'))) \<or>
         (\<exists>w'. set_fs_attributes_if_different E m chg w =
                  (Inr (chg \<or> wanted_attrs m (attrs f) \<noteq> attrs f), w') \<and>
               files w' = (files w)(path m \<mapsto> f\<lparr>attrs := wanted_attrs m (attrs f)\<rparr>) \<and>
               attrs_only w w')"
proof -
  let ?p = "path m"
  let ?F = "write_fault E \<noteq> None \<and> (\<exists>e w'. set_fs_attributes_if_different E m chg w = (Inl e, w'))"
  define c1 where "c1 = (chg \<or> (case arg_owner m of None \<Rightarrow> False | Some v \<Rightarrow> f_uid (attrs f) \<noteq> v))"
  define f1 where "f1 = f\<lparr>attrs := (case arg_owner m of None \<Rightarrow> attrs f | Some v \<Rightarrow> (attrs f)\<lparr>f_uid := v\<rparr>)\<rparr>"
  define c2 where "c2 = (c1 \<or> (case arg_group m of None \<Rightarrow> False | Some v \<Rightarrow> f_gid (attrs f1) \<noteq> v))"
  define f2 where "f2 = f1\<lparr>attrs := (case arg_group m of None \<Rightarrow> attrs f1 | Some v \<Rightarrow> (attrs f1)\<lparr>f_gid := v\<rparr>)\<rparr>"
  define c3 where "c3 = (c2 \<or> (case arg_mode m of None \<Rightarrow> False
                               | Some v \<Rightarrow> S_IMODE v \<noteq> S_IMODE (f_mode (attrs f2))))"
  define f3 where "f3 = f2\<lparr>attrs := (case arg_mode m of None \<Rightarrow> attrs f2 | Some v \<Rightarrow> chmod v (attrs f2))\<rparr>"
  from set_owner_apply [OF c f, of E "arg_owner m" chg] consider
    (fail) "?F" | (ok) w1 where "set_owner_if_different E m ?p (arg_owner m) chg w = (Inr c1, w1)"
      "files w1 = (files w)(?p \<mapsto> f1)" "attrs_only w w1"
    unfolding c1_def f1_def by (auto simp: set_fs_attributes_if_different_def bind_io_def)
  then show ?thesis
  proof cases
    case fail
    then show ?thesis by blast
  next
    case ok
    then have g1: "files w1 ?p = Some f1" by simp
    from set_group_apply [OF c g1, of E "arg_group m" c1] consider
      (fail2) "?F" | (ok2) w2 where "set_group_if_different E m ?p (arg_group m) c1 w1 = (Inr c2, w2)"
        "files w2 = (files w1)(?p \<mapsto> f2)" "attrs_only w1 w2"
      unfolding c2_def f2_def using ok(1)
      by (auto simp: set_fs_attributes_if_different_def bind_io_def)
    then show ?thesis
    proof cases
      case fail2
      then show ?thesis by blast
    next
      case ok2
      then have g2: "files w2 ?p = Some f2" by simp
      from set_mode_apply [OF c g2, of E "arg_mode m" c2] consider
        (fail3) "?F" | (ok3) w3 where "set_mode_if_different E m ?p (arg_mode m) c2 w2 = (Inr c3, w3)"
          "files w3 = (files w2)(?p \<mapsto> f3)" "attrs_only w2 w3"
        unfolding c3_def f3_def using ok(1) ok2(1)
        by (auto simp: set_fs_attributes_if_different_def bind_io_def)
      then show ?thesis
      proof cases
        case fail3
        then show ?thesis by blast
      next
        case ok3
        have r: "set_fs_attributes_if_different E m chg w = (Inr c3, w3)"
          using ok(1) ok2(1) ok3(1) by (simp add: set_fs_attributes_if_different_def bind_io_def)
        have fa: "attrs f3 = wanted_attrs m (attrs f)" "content f3 = content f"
          by (auto simp: f3_def f2_def f1_def wanted_attrs_def chmod_def S_IMODE_def split: option.splits)
        then have ff: "f3 = f\<lparr>attrs := wanted_attrs m (attrs f)\<rparr>" by (cases f3, cases f) simp
        have cc: "c3 = (chg \<or> wanted_attrs m (attrs f) \<noteq> attrs f)"
          unfolding c3_def c2_def c1_def f2_def f1_def wanted_attrs_differs
          by (auto split: option.splits)
        have "files w3 = (files w)(?p \<mapsto> f3)" using ok(2) ok2(2) ok3(2) by simp
        with r ff cc attrs_only_trans [OF attrs_only_trans [OF ok(3) ok2(3)] ok3(3)]
        show ?thesis by blast
      qed
    qed
  qed
qed

lemma set_fs_apply:
  assumes c: "\<not> check_mode m" and f: "files w (path m) = Some f" and wf: "write_fault E = None"
  shows "\<exists>w'. set_fs_attributes_if_different E m chg w =
                (Inr (chg \<or> wanted_attrs m (attrs f) \<noteq> attrs f), w') \<and>
              files w' = (files w)(path m \<mapsto> f\<lparr>attrs := wanted_attrs m (attrs f)\<rparr>) \<and>
              attrs_only w w'"
  using set_fs_apply_cases [OF c f, of E chg] wf by blast

lemma set_fs_apply_Inr:
  assumes c: "\<not> check_mode m" and f: "files w (path m) = Some f"
    and r: "set_fs_attributes_if_different E m chg w = (Inr x, w')"
  shows "x = (chg \<or> wanted_attrs m (attrs f) \<noteq> attrs f) \<and>
         files w' = (files w)(path m \<mapsto> f\<lparr>attrs := wanted_attrs m (attrs f)\<rparr>)"
  using set_fs_apply_cases [OF c f, of E chg] r by auto

lemma reported_differs_wanted:
  assumes "\<And>v. arg_mode m = Some v \<Longrightarrow> v < 4096"
  shows "reported_differs m a \<longleftrightarrow> wanted_attrs m a \<noteq> a"
proof -
  have "\<And>v. arg_mode m = Some v \<Longrightarrow> S_IMODE v = v" using assms by (simp add: S_IMODE_def)
  then show ?thesis
    unfolding wanted_attrs_differs reported_differs_def by (auto split: option.splits)
qed

lemma wanted_attrs_idem [simp]: "wanted_attrs m (wanted_attrs m a) = wanted_attrs m a"
proof -
  have "\<not> wanted_attrs m (wanted_attrs m a) \<noteq> wanted_attrs m a"
    unfolding wanted_attrs_differs [of m "wanted_attrs m a"]
    by (auto simp: wanted_attrs_def split: option.splits)
  then show ?thesis by simp
qed

lemma set_fs_check_closed:
  assumes "check_mode m" "files w (path m) = Some f"
  shows "set_fs_attributes_if_different E m chg w = (Inr (chg \<or> reported_differs m (attrs f)), w)"
  using assms
  by (auto simp: set_fs_attributes_if_different_def bind_io_def set_owner_if_different_def
        set_group_if_different_def set_mode_if_different_def Let_def
        check_file_absent_if_check_mode_def exists_def reported_differs_def split: option.splits)

lemma set_file_attributes_check:
  assumes "check_mode m" "path m \<notin> dirs E"
  shows "set_file_attributes E m self w =
           (Inr (self\<lparr>changed := (case files w (path m) of None \<Rightarrow> True
                   | Some f \<Rightarrow> changed self \<or> reported_differs m (attrs f))\<rparr>), w)"
proof (cases "files w (path m)")
  case None
  then show ?thesis using assms
    by (simp add: set_file_attributes_def check_file_absent_if_check_mode_def exists_def)
next
  case (Some f)
  then show ?thesis using assms
    by (simp add: set_file_attributes_def check_file_absent_if_check_mode_def exists_def
        set_fs_check_closed bind_io_def return_io_def)
qed

lemmas keeps_bind_same = keeps_bind [where R = same_files, OF same_files_trans]

lemma keeps_same_return: "keeps same_files (return_io x)"
  by (simp add: keeps_def return_io_def same_files_def)

lemma regenerate_check:
  "check_mode m \<Longrightarrow> regenerate B E m self w =
     (if force m then (Inr (self\<lparr>changed := True\<rparr>), w)
      else case needs_regeneration B (module_backend self) of
             Inl e \<Rightarrow> (Inl e, log EvCompare w)
           | Inr regen \<Rightarrow> (Inr (if regen then self\<lparr>changed := True\<rparr> else self), log EvCompare w))"
  by (simp add: regenerate_def bind_io_def return_io_def backend_call_def split: sum.splits)

lemma regenerate_check_same: "check_mode m \<Longrightarrow> keeps same_files (regenerate B E m self)"
  by (simp add: keeps_def regenerate_check same_files_def log_def split: sum.splits)

lemma set_fs_check_eq:
  "check_mode m \<Longrightarrow> set_fs_attributes_if_different E m chg w = (r, w') \<Longrightarrow> w' = w"
  using set_fs_check [of m E chg w] by simp

lemma set_file_attributes_check_same: "check_mode m \<Longrightarrow> keeps same_files (set_file_attributes E m self)"
  by (auto simp: keeps_def set_file_attributes_def same_files_def bind_io_def return_io_def
      split: prod.splits sum.splits dest: set_fs_check_eq)

lemma generate_check_same: "check_mode m \<Longrightarrow> keeps same_files (generate B E m self)"
  unfolding generate_def
  by (intro keeps_bind_same regenerate_check_same set_file_attributes_check_same)

lemma remove_check:
  "check_mode m \<Longrightarrow> remove B E m self w =
     (Inr (self\<lparr>module_backend := set_existing B None (module_backend self),
                changed := changed self \<or> exists E (path m) w\<rparr>), w)"
  by (simp add: remove_def OpenSSLObject_remove_def bind_io_def return_io_def Let_def)

lemma remove_check_same: "check_mode m \<Longrightarrow> keeps same_files (remove B E m self)"
  by (simp add: keeps_def remove_check same_files_def)

lemma init_same: "keeps same_files (init B E m b)"
  unfolding init_def
  by (intro keeps_bind_same load_same_files keeps_same_return)

lemma run_check_same: "check_mode m \<Longrightarrow> keeps same_files (run B E m)"
  unfolding run_def
  by (intro keeps_bind_same init_same keeps_backend_call same_files_log)
     (auto simp: generate_check_same remove_check_same keeps_same_return)

lemma main_snd: "snd (main B E m w) = (if isdir E (base_dir m) then snd (run B E m w) else w)"
  by (simp add: main_def split: prod.splits sum.splits exn.splits)

lemma main_check_files: "check_mode m \<Longrightarrow> files (snd (main B E m w)) = files w"
  using run_check_same [of m B E] by (simp add: main_snd keeps_def same_files_def)

lemma backup_Inr:
  "backup_local E p w = (Inr bf, w') \<Longrightarrow>
     files w' p = files w p \<and> trace w' = trace w @ [EvBackup] \<and>
     (bf = [] \<longleftrightarrow> files w p = None) \<and>
     (files w p = None \<longrightarrow> files w' = files w)"
  by (auto simp: backup_local_def log_def Let_def split: option.splits)

lemma OpenSSLObject_remove_Inr:
  "\<not> check_mode m \<Longrightarrow> OpenSSLObject_remove E m self w = (Inr self', w') \<Longrightarrow>
     changed self' = (changed self \<or> files w (path m) \<noteq> None) \<and>
     module_backend self' = module_backend self \<and> backup_file self' = backup_file self \<and>
     files w' = (files w)(path m := None)"
  by (auto simp: OpenSSLObject_remove_def log_def split: option.splits)

lemma remove_Inr:
  assumes nc: "\<not> check_mode m" and r: "remove B E m self w = (Inr self', w')"
  shows "changed self' = (changed self \<or> files w (path m) \<noteq> None) \<and>
         module_backend self' = set_existing B None (module_backend self) \<and>
         files w' (path m) = None \<and>
         (files w (path m) = None \<longrightarrow> files w' = files w \<and>
            (backup_file self' = backup_file self \<or> backup_file self' = Some []))"
proof (cases "backup m")
  case True
  let ?s0 = "self\<lparr>module_backend := set_existing B None (module_backend self)\<rparr>"
  from r True nc obtain bf w1 where b: "backup_local E (path m) w = (Inr bf, w1)"
    and o: "OpenSSLObject_remove E m (?s0\<lparr>backup_file := Some bf\<rparr>) w1 = (Inr self', w')"
    by (auto simp: remove_def bind_io_Inr return_io_def Let_def)
  from backup_Inr [OF b] OpenSSLObject_remove_Inr [OF nc o] show ?thesis by auto
next
  case False
  let ?s0 = "self\<lparr>module_backend := set_existing B None (module_backend self)\<rparr>"
  from r False have o: "OpenSSLObject_remove E m ?s0 w = (Inr self', w')"
    by (auto simp: remove_def bind_io_Inr return_io_def Let_def)
  from OpenSSLObject_remove_Inr [OF nc o] show ?thesis by auto
qed

lemma regenerate_Inr_needs:
  "regenerate B E m self w = (Inr s1, w1) \<Longrightarrow> \<not> force m \<Longrightarrow>
     \<exists>regen. needs_regeneration B (module_backend self) = Inr regen"
  by (auto simp: regenerate_def bind_io_Inr backend_call_def)

lemma check_mode_changed:
  assumes c: "check_mode m"
    and pm: "\<And>v. arg_mode m = Some v \<Longrightarrow> v < 4096"
    and h: "\<And>b. select_backend B = Inr b \<Longrightarrow> needs_regeneration B (set_existing B None b) = Inr True"
    and a: "main B E (m\<lparr>check_mode := False\<rparr>) w = (ExitJson r', w')"
  shows "\<exists>r w''. main B E m w = (ExitJson r, w'') \<and> r_changed r = r_changed r'"
proof -
  let ?m = "m\<lparr>check_mode := False\<rparr>"
  have nc: "\<not> check_mode ?m" by simp
  have bd: "base_dir ?m = base_dir m" by (simp add: base_dir_def)
  from a have dir: "isdir E (base_dir m)" and run: "run B E ?m w = (Inr r', w')"
    by (simp_all add: main_ExitJson bd)
  have ii: "\<And>b. initial B ?m w b = initial B m w b" by (simp add: initial_def existing_bytes_def)
  have ie: "\<And>b. init B E ?m b = init B E m b" by (simp add: init_def)
  from run obtain b self' where b: "select_backend B = Inr b" and p': "path ?m \<notin> dirs E"
    and r': "r' = dump B ?m self'"
    and ld': "init B E ?m b (log EvSelectBackend w) = (Inr (initial B ?m w b), log EvLoad (log EvSelectBackend w))"
    and step': "(if state ?m = Present then generate B E ?m (initial B ?m w b)
                else remove B E ?m (initial B ?m w b)) (log EvLoad (log EvSelectBackend w)) = (Inr self', w')"
    by (rule run_Inr)
  from p' have p: "path m \<notin> dirs E" by simp
  from step' have step: "(if state m = Present then generate B E ?m (initial B m w b)
                else remove B E ?m (initial B m w b)) (log EvLoad (log EvSelectBackend w)) = (Inr self', w')"
    by (simp add: ii cong: if_cong)
  let ?w1 = "log EvLoad (log EvSelectBackend w)"
  let ?i = "initial B m w b"
  have f1: "files ?w1 = files w" by (simp add: log_def)
  have ld: "init B E m b (log EvSelectBackend w) = (Inr ?i, ?w1)"
    using ld' by (simp add: ii ie)
  have chk: "run B E m w =
     bind_io (if state m = Present then generate B E m ?i else remove B E m ?i)
        (\<lambda>csr'. return_io (dump B m csr')) ?w1"
    by (simp add: run_def bind_io_def backend_call_def b ld)
  show ?thesis
  proof (cases "state m = Present")
    case False
    with step have rm: "remove B E ?m ?i ?w1 = (Inr self', w')" by simp
    from remove_Inr [OF nc rm] have "changed self' = (files w (path m) \<noteq> None)"
      by (simp add: initial_def f1)
    moreover have "run B E m w =
        (Inr (dump B m (?i\<lparr>module_backend := set_existing B None (module_backend ?i),
                changed := changed ?i \<or> exists E (path m) ?w1\<rparr>)), ?w1)"
      using False c by (simp add: chk remove_check bind_io_def return_io_def)
    ultimately show ?thesis using dir p r'
      by (simp add: main_ExitJson dump_def exists_def f1 initial_def)
  next
    case True
    with step obtain s1 w2 where rg: "regenerate B E ?m ?i ?w1 = (Inr s1, w2)"
      and sa: "set_file_attributes E ?m s1 w2 = (Inr self', w')"
      by (auto simp: generate_def bind_io_Inr)
    let ?d = "force m \<or> needs_regeneration B (module_backend ?i) = Inr True"
    have fm: "force ?m = force m" by simp
    note R = regenerate_Inr [OF rg, unfolded fm]
    note S = set_file_attributes_Inr [OF sa]
    define sc where "sc = (if ?d then ?i\<lparr>changed := True\<rparr> else ?i)"
    have scd: "changed sc = ?d" by (simp add: sc_def initial_def)
    obtain wc where cr: "regenerate B E m ?i ?w1 = (Inr sc, wc)"
      and fc: "files wc = files w"
    proof (cases "force m")
      case True
      then show ?thesis using that c by (simp add: regenerate_check f1 sc_def)
    next
      case False
      with regenerate_Inr_needs [OF rg] obtain regen where
        "needs_regeneration B (module_backend ?i) = Inr regen" by auto
      then show ?thesis using that [of "log EvCompare ?w1"] c False
        by (simp add: regenerate_check log_def sc_def)
    qed
    have crun: "run B E m w =
        (Inr (dump B m (sc\<lparr>changed := (case files w (path m) of None \<Rightarrow> True
                | Some f \<Rightarrow> changed sc \<or> reported_differs m (attrs f))\<rparr>)), wc)"
      using True c p cr
      by (simp add: chk generate_def set_file_attributes_check fc bind_io_def return_io_def)
    have "r_changed r' = (case files w (path m) of None \<Rightarrow> True
                | Some f \<Rightarrow> ?d \<or> reported_differs m (attrs f))"
    proof (cases ?d)
      case True
      then have "changed self'" using R S by blast
      then show ?thesis using True r' by (simp add: dump_def split: option.splits)
    next
      case nd: False
      then have s1: "s1 = ?i" and f2: "files w2 = files w" using R by (simp_all add: f1)
      have nf: "\<not> force m" using nd by simp
      from regenerate_Inr_needs [OF rg] nf nd
      have n: "needs_regeneration B (module_backend ?i) = Inr False" by auto
      obtain f where f: "files w (path m) = Some f"
      proof (cases "files w (path m)")
        case None
        then have "module_backend ?i = set_existing B None b" by (simp add: initial_def existing_bytes_def)
        with h [OF b] n show ?thesis by simp
      qed blast
      have f2': "files w2 (path ?m) = Some f" using f f2 by simp
      from sa obtain x where x: "set_fs_attributes_if_different E ?m (changed s1) w2 = (Inr x, w')"
        and sx: "self' = s1\<lparr>changed := x\<rparr>"
        by (auto simp: set_file_attributes_def check_file_absent_if_check_mode_def
            bind_io_Inr return_io_def)
      have wm: "wanted_attrs ?m (attrs f) = wanted_attrs m (attrs f)" by (simp add: wanted_attrs_def)
      from set_fs_apply_Inr [OF nc f2' x] sx
      have "changed self' = (changed s1 \<or> wanted_attrs m (attrs f) \<noteq> attrs f)" by (simp add: wm)
      then show ?thesis using nd f r' s1 reported_differs_wanted [of m "attrs f", OF pm]
        by (simp add: dump_def initial_def)
    qed
    then show ?thesis using dir crun scd
      by (auto simp: main_ExitJson dump_def split: option.splits)
  qed
qed

lemma init_ok:
  assumes "path m \<notin> dirs E" "files w (path m) = None \<or> load_fault E = None"
  shows "init B E m b w = (Inr (initial B m w b), log EvLoad w)"
  using assms
  by (auto simp: init_def load_file_if_exists_def bind_io_def return_io_def initial_def
      existing_bytes_def split: option.splits)

lemma run_start:
  assumes "select_backend B = Inr b" "path m \<notin> dirs E" "files w (path m) = None \<or> load_fault E = None"
  shows "run B E m w =
     bind_io (if state m = Present then generate B E m (initial B m w b) else remove B E m (initial B m w b))
        (\<lambda>csr'. return_io (dump B m csr')) (log EvLoad (log EvSelectBackend w))"
proof -
  have "init B E m b (log EvSelectBackend w) = (Inr (initial B m w b), log EvLoad (log EvSelectBackend w))"
  proof -
    have "files (log EvSelectBackend w) (path m) = None \<or> load_fault E = None"
      using assms(3) by (simp add: log_def)
    from init_ok [OF assms(2) this, of B b] show ?thesis by simp
  qed
  then show ?thesis by (simp add: run_def bind_io_def backend_call_def assms(1))
qed

text \<open>An apply run that does not regenerate, and one that does.\<close>

lemma run_no_regeneration:
  assumes "state m = Present" "\<not> check_mode m" "\<not> force m"
    and "isdir E (base_dir m)" "path m \<notin> dirs E" "select_backend B = Inr b"
    and f: "files w (path m) = Some f" and "load_fault E = None"
    and n: "needs_regeneration B (set_existing B (Some (content f)) b) = Inr False"
    and wf: "write_fault E = None"
  shows "\<exists>r w'. main B E m w = (ExitJson r, w') \<and>
           r_changed r = (wanted_attrs m (attrs f) \<noteq> attrs f) \<and> r_backup_file r = None \<and>
           files w' = (files w)(path m \<mapsto> f\<lparr>attrs := wanted_attrs m (attrs f)\<rparr>) \<and>
           (EvWrite \<in> set (trace w') \<longleftrightarrow> EvWrite \<in> set (trace w))"
proof -
  let ?w1 = "log EvLoad (log EvSelectBackend w)"
  let ?i = "initial B m w b"
  have mb: "module_backend ?i = set_existing B (Some (content f)) b" "changed ?i = False"
    "backup_file ?i = None"
    using f by (simp_all add: initial_def existing_bytes_def)
  have rg: "regenerate B E m ?i ?w1 = (Inr ?i, log EvCompare ?w1)"
    using assms(3) n by (simp add: regenerate_def bind_io_def backend_call_def return_io_def mb)
  have f1: "files (log EvCompare ?w1) (path m) = Some f" using f by (simp add: log_def)
  from set_fs_apply [OF assms(2) f1 wf, of False] obtain w' where
    s: "set_fs_attributes_if_different E m False (log EvCompare ?w1) =
          (Inr (wanted_attrs m (attrs f) \<noteq> attrs f), w')"
    and fw: "files w' = (files (log EvCompare ?w1))(path m \<mapsto> f\<lparr>attrs := wanted_attrs m (attrs f)\<rparr>)"
    and ao: "attrs_only (log EvCompare ?w1) w'" by auto
  have g: "generate B E m ?i ?w1 = (Inr (?i\<lparr>changed := wanted_attrs m (attrs f) \<noteq> attrs f\<rparr>), w')"
    using rg s assms(2)
    by (simp add: generate_def bind_io_def set_file_attributes_def
        check_file_absent_if_check_mode_def return_io_def mb)
  have "run B E m w = (Inr (dump B m (?i\<lparr>changed := wanted_attrs m (attrs f) \<noteq> attrs f\<rparr>)), w')"
    using assms(1) f g by (simp add: run_start [OF assms(6,5)] assms(8) bind_io_def return_io_def)
  moreover have "EvWrite \<in> set (trace w') \<longleftrightarrow> EvWrite \<in> set (trace w)"
    using attrs_only_write [OF ao] by (simp add: log_def)
  ultimately show ?thesis using assms(4) fw
    by (simp add: main_ExitJson dump_def mb log_def)
qed

lemma generate_apply_ok:
  assumes g: "generate_csr B (module_backend self) = Inr b'" and d: "get_csr_data B b' = Inr data"
    and wf: "write_fault E = None"
    and bf: "backup m \<longrightarrow> backup_fault E = None \<or> files w (path m) = None"
  shows "\<exists>self' w' a. generate_apply B E m self w = (Inr self', w') \<and>
           changed self' = changed self \<and> module_backend self' = b' \<and>
           files w' (path m) = Some \<lparr>content = data, attrs = a\<rparr> \<and> EvWrite \<in> set (trace w')"
proof (cases "backup m")
  case False
  then show ?thesis using g d wf
    by (simp add: generate_apply_def bind_io_def backend_call_def return_io_def write_file_def log_def)
next
  case True
  let ?w0 = "log EvGenerate (log EvGenerate w)"
  from True bf obtain x w1 where b: "backup_local E (path m) ?w0 = (Inr x, w1)"
    by (cases "files w (path m)") (auto simp: backup_local_def log_def Let_def)
  show ?thesis using True g d wf b
    by (simp add: generate_apply_def bind_io_def backend_call_def return_io_def write_file_def log_def)
qed

lemma run_regeneration:
  assumes "state m = Present" and nc: "\<not> check_mode m"
    and "isdir E (base_dir m)" "path m \<notin> dirs E" "select_backend B = Inr b"
    and "files w (path m) = None \<or> load_fault E = None"
    and dec: "force m \<or> needs_regeneration B (set_existing B (existing_bytes m w) b) = Inr True"
    and g: "generate_csr B (set_existing B (existing_bytes m w) b) = Inr b'"
    and d: "get_csr_data B b' = Inr data"
    and wf: "write_fault E = None"
    and bf: "backup m \<longrightarrow> backup_fault E = None \<or> files w (path m) = None"
  shows "\<exists>r w' a. main B E m w = (ExitJson r, w') \<and> r_changed r \<and>
           r_backend r = dump_backend B (return_content m) b' \<and>
           files w' (path m) = Some \<lparr>content = data, attrs = wanted_attrs m a\<rparr> \<and>
           EvWrite \<in> set (trace w')"
proof -
  let ?w1 = "log EvLoad (log EvSelectBackend w)"
  let ?i = "initial B m w b"
  let ?w2 = "if force m then ?w1 else log EvCompare ?w1"
  have mb: "module_backend ?i = set_existing B (existing_bytes m w) b" by (simp add: initial_def)
  have bf2: "backup m \<longrightarrow> backup_fault E = None \<or> files ?w2 (path m) = None"
    using bf by (simp add: log_def)
  from generate_apply_ok [of B ?i b' data E m ?w2, OF _ d wf bf2] g mb
  obtain s1 w3 a where ga: "generate_apply B E m ?i ?w2 = (Inr s1, w3)"
    and s1: "module_backend s1 = b'"
    and f3: "files w3 (path m) = Some \<lparr>content = data, attrs = a\<rparr>"
    and t3: "EvWrite \<in> set (trace w3)" by auto
  have rg: "regenerate B E m ?i ?w1 = (Inr (s1\<lparr>changed := True\<rparr>), w3)"
    using dec nc ga
    by (auto simp: regenerate_def bind_io_def backend_call_def return_io_def mb)
  from set_fs_apply [OF nc f3 wf, of True] obtain w' where
    s: "set_fs_attributes_if_different E m True w3 = (Inr True, w')"
    and fw: "files w' = (files w3)(path m \<mapsto> \<lparr>content = data, attrs = a\<rparr>\<lparr>attrs := wanted_attrs m a\<rparr>)"
    and ao: "attrs_only w3 w'" by auto
  have gen: "generate B E m ?i ?w1 = (Inr (s1\<lparr>changed := True\<rparr>), w')"
    using rg s nc
    by (simp add: generate_def bind_io_def set_file_attributes_def
        check_file_absent_if_check_mode_def return_io_def)
  have "run B E m w = (Inr (dump B m (s1\<lparr>changed := True\<rparr>)), w')"
    using assms(1) gen by (simp add: run_start [OF assms(5,4,6)] bind_io_def return_io_def)
  moreover have "EvWrite \<in> set (trace w')" using attrs_only_write [OF ao] t3 by simp
  ultimately have "main B E m w = (ExitJson (dump B m (s1\<lparr>changed := True\<rparr>)), w') \<and>
      r_changed (dump B m (s1\<lparr>changed := True\<rparr>)) \<and>
      r_backend (dump B m (s1\<lparr>changed := True\<rparr>)) = dump_backend B (return_content m) b' \<and>
      files w' (path m) = Some \<lparr>content = data, attrs = wanted_attrs m a\<rparr> \<and>
      EvWrite \<in> set (trace w')"
    using assms(3) fw s1 by (simp add: main_ExitJson dump_def)
  then show ?thesis by blast
qed

lemma csr_backend_select: "select_backend (csr_backend C) = Inr \<lparr>existing_csr_bytes = None, csr = None\<rparr>"
  by (simp add: csr_backend_def)

lemma main_OpenSSLObjectError:
  "isdir E (base_dir m) \<Longrightarrow> run B E m w = (Inl (OpenSSLObjectError msg), w') \<Longrightarrow>
     main B E m w = (FailJson None msg, w')"
  by (simp add: main_def)

lemma generate_apply_backend_error:
  assumes "(case generate_csr B (module_backend self) of
              Inl e \<Rightarrow> Some e
            | Inr b' \<Rightarrow> (case get_csr_data B b' of Inl e \<Rightarrow> Some e | Inr result \<Rightarrow> None)) = Some e"
  shows "\<exists>w'. generate_apply B E m self w = (Inl e, w') \<and> files w' = files w"
  using assms
  by (auto simp: generate_apply_def bind_io_def backend_call_def log_def split: sum.splits)

lemma generate_apply_Inr_bytes:
  "generate_apply B E m self w = (Inr self', w') \<Longrightarrow>
     \<exists>b' data. generate_csr B (module_backend self) = Inr b' \<and> get_csr_data B b' = Inr data \<and>
        map_option content (files w' (path m)) = Some data"
  by (auto simp: generate_apply_def bind_io_Inr return_io_def backend_call_def dest!: write_Inr
      split: if_splits)

lemma regenerate_Inr_bytes:
  assumes "regenerate B E m self w = (Inr s1, w1)" "\<not> check_mode m"
  shows "force m \<or> needs_regeneration B (module_backend self) = Inr True \<Longrightarrow>
     \<exists>b' data. generate_csr B (module_backend self) = Inr b' \<and> get_csr_data B b' = Inr data \<and>
        map_option content (files w1 (path m)) = Some data"
  using assms
  by (auto simp: regenerate_def bind_io_Inr return_io_def backend_call_def
      dest!: generate_apply_Inr_bytes split: if_splits)

lemma backup_precedes_mono: "backup_precedes s es \<Longrightarrow> backup_precedes True es"
  by (induction es arbitrary: s) (auto split: if_splits)

lemma backup_precedes_append:
  "backup_precedes s xs \<Longrightarrow> backup_precedes False ys \<Longrightarrow> backup_precedes s (xs @ ys)"
proof (induction xs arbitrary: s)
  case Nil
  then show ?case by (cases s) (auto intro: backup_precedes_mono)
next
  case (Cons x xs)
  then show ?case by (auto split: if_splits)
qed

lemma extends_bind:
  assumes f: "extends f" and g: "\<And>x. extends (g x)"
  shows "extends (bind_io f g)"
  unfolding extends_def
proof
  fix w
  obtain r w1 where fw: "f w = (r, w1)" by (cases "f w")
  from f fw obtain es where 1: "trace w1 = trace w @ es" "backup_precedes False es"
    by (auto simp: extends_def dest: spec [of _ w])
  show "\<exists>es. trace (snd (bind_io f g w)) = trace w @ es \<and> backup_precedes False es"
  proof (cases r)
    case (Inl e)
    then show ?thesis using fw 1 by (auto simp: bind_io_def)
  next
    case (Inr x)
    from g [of x] obtain es' where 2: "trace (snd (g x w1)) = trace w1 @ es'" "backup_precedes False es'"
      by (auto simp: extends_def dest: spec [of _ w1])
    have "trace (snd (bind_io f g w)) = trace w @ (es @ es')" using fw Inr 1 2 by (simp add: bind_io_def)
    moreover have "backup_precedes False (es @ es')" using 1 2 by (simp add: backup_precedes_append)
    ultimately show ?thesis by blast
  qed
qed

lemma extends_return: "extends (return_io x)"
  by (simp add: extends_def return_io_def)

lemma extends_backend_call: "ev \<noteq> EvWrite \<Longrightarrow> ev \<noteq> EvRemove \<Longrightarrow> extends (backend_call ev r)"
  by (simp add: extends_def backend_call_def log_def)

lemma extends_load: "extends (load_file_if_exists E p)"
  by (simp add: extends_def load_snd log_def)

lemma extends_backup: "extends (backup_local E p)"
  by (auto simp: extends_def backup_local_def log_def Let_def split: option.splits)

lemma backup_precedes_attrs: "set es \<subseteq> {EvSetAttrs} \<Longrightarrow> backup_precedes s es"
  by (induction es) auto

lemma extends_set_file_attributes: "extends (set_file_attributes E m self)"
  unfolding extends_def
proof
  fix w
  show "\<exists>es. trace (snd (set_file_attributes E m self w)) = trace w @ es \<and> backup_precedes False es"
  proof (cases "check_file_absent_if_check_mode E m (path m) w")
    case True
    then show ?thesis by (simp add: set_file_attributes_def)
  next
    case False
    obtain r w' where s: "set_fs_attributes_if_different E m (changed self) w = (r, w')"
      by (cases "set_fs_attributes_if_different E m (changed self) w")
    from set_fs_snd [OF s] obtain es where "trace w' = trace w @ es" "set es \<subseteq> {EvSetAttrs}"
      by (auto simp: attrs_only_def)
    moreover have "snd (set_file_attributes E m self w) = w'"
      using False s by (cases r) (simp_all add: set_file_attributes_def bind_io_def return_io_def)
    ultimately show ?thesis using backup_precedes_attrs by auto
  qed
qed

lemma extends_generate_apply: "backup m \<Longrightarrow> extends (generate_apply B E m self)"
  by (auto simp: extends_def generate_apply_def bind_io_def backend_call_def return_io_def log_def
      backup_local_def write_file_def Let_def split: sum.splits option.splits)

lemma extends_remove: "backup m \<Longrightarrow> \<not> check_mode m \<Longrightarrow> extends (remove B E m self)"
  by (auto simp: extends_def remove_def bind_io_def return_io_def log_def
      backup_local_def OpenSSLObject_remove_def Let_def split: sum.splits option.splits)

lemma extends_regenerate: "backup m \<Longrightarrow> extends (regenerate B E m self)"
  unfolding regenerate_def
  by (intro extends_bind)
     (auto simp: extends_return extends_backend_call extends_generate_apply intro!: extends_bind)

lemma extends_generate: "backup m \<Longrightarrow> extends (generate B E m self)"
  unfolding generate_def
  by (intro extends_bind extends_regenerate extends_set_file_attributes)

lemma extends_init: "extends (init B E m b)"
  unfolding init_def by (intro extends_bind extends_load extends_return)

lemma extends_run: "backup m \<Longrightarrow> \<not> check_mode m \<Longrightarrow> extends (run B E m)"
  unfolding run_def
  by (intro extends_bind extends_init extends_backend_call)
     (auto simp: extends_generate extends_remove extends_return)

lemma main_ordered:
  assumes "backup m" "\<not> check_mode m" "trace w = []"
  shows "backup_precedes False (trace (snd (main B E m w)))"
proof (cases "isdir E (base_dir m)")
  case True
  from extends_run [OF assms(1,2), of B E] obtain es where
    "trace (snd (run B E m w)) = trace w @ es" "backup_precedes False es"
    by (auto simp: extends_def dest: spec [of _ w])
  then show ?thesis using True assms(3) by (simp add: main_snd)
next
  case False
  then show ?thesis using assms(3) by (simp add: main_snd)
qed

lemma undisturbed_trans: "undisturbed p a b \<Longrightarrow> undisturbed p b c \<Longrightarrow> undisturbed p a c"
  by (cases "files a p") (auto simp: undisturbed_def)

lemmas keeps_bind_und = keeps_bind [where R = "undisturbed p", OF undisturbed_trans] for p

lemma und_return: "keeps (undisturbed p) (return_io x)"
  by (simp add: keeps_def return_io_def undisturbed_def)

lemma und_backend_call:
  "ev \<noteq> EvBackup \<Longrightarrow> ev \<noteq> EvWrite \<Longrightarrow> ev \<noteq> EvRemove \<Longrightarrow> keeps (undisturbed p) (backend_call ev r)"
  by (simp add: keeps_def backend_call_def undisturbed_def log_def)

lemma und_load: "keeps (undisturbed p) (load_file_if_exists E q)"
  by (simp add: keeps_def load_snd undisturbed_def log_def)

lemma und_init: "keeps (undisturbed p) (init B E m b)"
  unfolding init_def by (intro keeps_bind_und und_load und_return)

lemma und_attrs_only: "attrs_only w w' \<Longrightarrow> undisturbed p w w'"
  by (auto simp: attrs_only_def undisturbed_def)

lemma und_set_file_attributes: "keeps (undisturbed p) (set_file_attributes E m self)"
  unfolding keeps_def
proof
  fix w
  obtain r w' where s: "set_file_attributes E m self w = (r, w')" by (cases "set_file_attributes E m self w")
  have "attrs_only w w'"
  proof (cases "check_file_absent_if_check_mode E m (path m) w")
    case True
    then show ?thesis using s by (simp add: set_file_attributes_def attrs_only_refl)
  next
    case False
    obtain r1 w1 where 1: "set_fs_attributes_if_different E m (changed self) w = (r1, w1)"
      by (cases "set_fs_attributes_if_different E m (changed self) w")
    then have "w' = w1" using False s
      by (cases r1) (auto simp: set_file_attributes_def bind_io_def return_io_def)
    then show ?thesis using set_fs_snd [OF 1] by simp
  qed
  then show "undisturbed p w (snd (set_file_attributes E m self w))" using s by (simp add: und_attrs_only)
qed

lemma und_generate_apply:
  assumes "backup m" "backup_fault E \<noteq> None"
  shows "keeps (undisturbed (path m)) (generate_apply B E m self)"
  using assms
  by (auto simp: keeps_def undisturbed_def generate_apply_def bind_io_def backend_call_def log_def
      backup_local_def split: sum.splits option.splits)

lemma und_remove:
  assumes "backup m" "\<not> check_mode m" "backup_fault E \<noteq> None"
  shows "keeps (undisturbed (path m)) (remove B E m self)"
  using assms
  by (auto simp: keeps_def undisturbed_def remove_def bind_io_def Let_def
      backup_local_def split: sum.splits option.splits)

lemma und_regenerate:
  assumes "backup m" "\<not> check_mode m" "backup_fault E \<noteq> None"
  shows "keeps (undisturbed (path m)) (regenerate B E m self)"
  unfolding regenerate_def using assms
  by (intro keeps_bind_und)
     (auto simp: und_return und_backend_call und_generate_apply intro!: keeps_bind_und)

lemma und_run:
  assumes "backup m" "\<not> check_mode m" "backup_fault E \<noteq> None"
  shows "keeps (undisturbed (path m)) (run B E m)"
  unfolding run_def generate_def using assms
  by (intro keeps_bind_und und_init und_backend_call)
     (auto simp: und_return und_regenerate und_remove und_set_file_attributes intro!: keeps_bind_und)

lemma present_run_decision:
  assumes "state m = Present" "main B E m w = (ExitJson r, w')" "EvWrite \<notin> set (trace w)"
  shows "(regeneration_decision B m w \<longrightarrow> r_changed r) \<and>
         (\<not> check_mode m \<longrightarrow> (EvWrite \<in> set (trace w') \<longleftrightarrow> regeneration_decision B m w)) \<and>
         (\<not> regeneration_decision B m w \<longrightarrow> existing_bytes m w' = existing_bytes m w)"
proof -
  from assms(2) have "run B E m w = (Inr r, w')" by (simp add: main_ExitJson)
  then obtain b self' where b: "select_backend B = Inr b" and r: "r = dump B m self'"
    and g: "generate B E m (initial B m w b) (log EvLoad (log EvSelectBackend w)) = (Inr self', w')"
    using assms(1) by (auto elim!: run_Inr)
  from g obtain s1 w1 where
    1: "regenerate B E m (initial B m w b) (log EvLoad (log EvSelectBackend w)) = (Inr s1, w1)"
    and 2: "set_file_attributes E m s1 w1 = (Inr self', w')"
    by (auto simp: generate_def bind_io_Inr)
  have d: "regeneration_decision B m w \<longleftrightarrow>
           force m \<or> needs_regeneration B (module_backend (initial B m w b)) = Inr True"
    by (simp add: regeneration_decision_def b initial_def)
  note R = regenerate_Inr [OF 1, folded d] and S = set_file_attributes_Inr [OF 2]
  have a: "r_changed r = changed self'" by (simp add: r dump_def)
  have t: "EvWrite \<in> set (trace w') \<longleftrightarrow> EvWrite \<in> set (trace w1)"
    using S by (simp add: attrs_only_write)
  have c: "existing_bytes m w' = existing_bytes m w1"
    using S by (simp add: attrs_only_def existing_bytes_def)
  show ?thesis using R S a t c assms(3) by (auto simp: log_def existing_bytes_def)
qed

subsection \<open>The claims\<close>

text \<open>
  C8. Missing parent directory: when the parent directory of the target path does not exist
  or is not a directory, the run fails with \<open>fail_json\<close> and ends in the world it
  started in, trace included: no backend was selected, nothing was loaded, compared,
  written, removed or backed up.
\<close>

theorem main_missing_directory:
  "\<not> isdir E (base_dir m) \<Longrightarrow>
     main B E m w =
       (FailJson (Some (base_dir m))
          (''The directory '' @ base_dir m @ '' does not exist or the file is not a directory''), w)"
  by (simp add: main_def)

theorem main_missing_directory_witness:
  "\<not> isdir bare_env (base_dir example_module) \<and>
   main (csr_backend example_capability) bare_env example_module empty_world =
     (FailJson (Some ''/etc/ssl/csr'')
        ''The directory /etc/ssl/csr does not exist or the file is not a directory'', empty_world)"
  using main_missing_directory [of bare_env example_module "csr_backend example_capability" empty_world]
  by (simp add: isdir_def base_dir_def bare_env_def example_env_def example_module_def dirname_def)

text \<open>
  C3. Regeneration decision: in a run with state present that exits normally, the run took
  the regeneration path exactly when force is true or the backend's comparison reports that
  the existing artifact does not satisfy the desired specification. If it did, the run
  reports a change, and outside check mode the file was written and the target holds the
  bytes the backend generated (\<open>get_csr_data\<close> after \<open>generate_csr\<close>); if it did not,
  no write took place and the file holds the bytes it held (a matching artifact with force
  off is left untouched, and force regenerates a matching one too). In check mode no file
  changes.
\<close>

theorem regeneration_iff_force_or_mismatch:
  assumes "state m = Present" "main B E m w = (ExitJson r, w')" "EvWrite \<notin> set (trace w)"
  shows "(regeneration_decision B m w \<longrightarrow> r_changed r) \<and>
         (\<not> check_mode m \<longrightarrow> (EvWrite \<in> set (trace w') \<longleftrightarrow> regeneration_decision B m w)) \<and>
         (\<not> regeneration_decision B m w \<longrightarrow> existing_bytes m w' = existing_bytes m w) \<and>
         (regeneration_decision B m w \<and> \<not> check_mode m \<longrightarrow>
            generated_bytes B m w \<noteq> None \<and> existing_bytes m w' = generated_bytes B m w) \<and>
         (check_mode m \<longrightarrow> files w' = files w)"
proof -
  from assms(2) have "run B E m w = (Inr r, w')" by (simp add: main_ExitJson)
  then obtain b self' where b: "select_backend B = Inr b" and r: "r = dump B m self'"
    and g: "generate B E m (initial B m w b) (log EvLoad (log EvSelectBackend w)) = (Inr self', w')"
    using assms(1) by (auto elim!: run_Inr)
  from g obtain s1 w1 where
    1: "regenerate B E m (initial B m w b) (log EvLoad (log EvSelectBackend w)) = (Inr s1, w1)"
    and 2: "set_file_attributes E m s1 w1 = (Inr self', w')"
    by (auto simp: generate_def bind_io_Inr)
  have d: "regeneration_decision B m w \<longleftrightarrow>
           force m \<or> needs_regeneration B (module_backend (initial B m w b)) = Inr True"
    by (simp add: regeneration_decision_def b initial_def)
  note R = regenerate_Inr [OF 1, folded d] and S = set_file_attributes_Inr [OF 2]
  have a: "r_changed r = changed self'" by (simp add: r dump_def)
  have t: "EvWrite \<in> set (trace w') \<longleftrightarrow> EvWrite \<in> set (trace w1)"
    using S by (simp add: attrs_only_write)
  have c: "existing_bytes m w' = existing_bytes m w1"
    using S by (simp add: attrs_only_def existing_bytes_def)
  have 3: "(regeneration_decision B m w \<longrightarrow> r_changed r) \<and>
         (\<not> check_mode m \<longrightarrow> (EvWrite \<in> set (trace w') \<longleftrightarrow> regeneration_decision B m w)) \<and>
         (\<not> regeneration_decision B m w \<longrightarrow> existing_bytes m w' = existing_bytes m w)"
    using R S a t c assms(3) by (auto simp: log_def existing_bytes_def)
  have 4: "generated_bytes B m w \<noteq> None \<and> existing_bytes m w' = generated_bytes B m w"
    if "regeneration_decision B m w" "\<not> check_mode m"
  proof -
    from regenerate_Inr_bytes [OF 1 that(2)] that(1) d
    obtain b' data where "generate_csr B (module_backend (initial B m w b)) = Inr b'"
      "get_csr_data B b' = Inr data" "existing_bytes m w1 = Some data"
      by (auto simp: existing_bytes_def)
    then show ?thesis using b c by (simp add: generated_bytes_def initial_def)
  qed
  have 5: "files w' = files w" if "check_mode m"
    using main_check_files [OF that, of B E w] assms(2) by simp
  from 3 4 5 show ?thesis by blast
qed

theorem regeneration_iff_force_or_mismatch_witness:
  "state example_module = Present \<and>
   EvWrite \<notin> set (trace (file_world ''CSR:CN=other.org'')) \<and>
   regeneration_decision (csr_backend example_capability) example_module (file_world ''CSR:CN=other.org'') \<and>
   (\<exists>r w'. main (csr_backend example_capability) example_env example_module
              (file_world ''CSR:CN=other.org'') = (ExitJson r, w') \<and>
           r_changed r \<and> EvWrite \<in> set (trace w') \<and>
           existing_bytes example_module w' = Some ''CSR:CN=example.com'')"
proof -
  let ?w = "file_world ''CSR:CN=other.org''"
  have 1: "state example_module = Present" by (simp add: example_module_def)
  have 3: "EvWrite \<notin> set (trace ?w)" by (simp add: file_world_def)
  obtain r w' where 2: "main (csr_backend example_capability) example_env example_module ?w =
      (ExitJson r, w')"
    by (simp add: run_defs example_defs)
  have 4: "regeneration_decision (csr_backend example_capability) example_module ?w"
    by (simp add: regeneration_decision_def existing_bytes_def csr_backend_def example_defs)
  have 5: "\<not> check_mode example_module" by (simp add: example_module_def)
  have 6: "generated_bytes (csr_backend example_capability) example_module ?w =
             Some ''CSR:CN=example.com''"
    by (simp add: generated_bytes_def existing_bytes_def csr_backend_def example_defs)
  from regeneration_iff_force_or_mismatch [OF 1 2 3] 4 5
  have "r_changed r \<and> EvWrite \<in> set (trace w') \<and>
        existing_bytes example_module w' = Some ''CSR:CN=example.com''"
    unfolding 6 by blast
  with 1 2 3 4 show ?thesis by blast
qed

text \<open>
  C2. Check mode, as stated, fails in its second half: with a mode option that holds more
  than permission bits (\<open>0o100644\<close>, which is 33188) on a matching file of mode
  \<open>0o644\<close>, the check run reports a change, since the permission bits are not the number
  given, and the apply run reports none, since \<open>chmod\<close> leaves the permission bits as
  they were.
\<close>

theorem check_mode_pure_counterexample:
  "fst (main (csr_backend example_capability) example_env
         (example_module\<lparr>arg_mode := Some 33188, check_mode := True\<rparr>)
         (file_world ''CSR:CN=example.com'')) =
     ExitJson \<lparr>r_backend = \<lparr>summary = Some ''CN=example.com'', csr_content = None\<rparr>,
               r_filename = ''/etc/ssl/csr/www.csr'', r_changed = True, r_backup_file = None\<rparr> \<and>
   fst (main (csr_backend example_capability) example_env
         (example_module\<lparr>arg_mode := Some 33188, check_mode := False\<rparr>)
         (file_world ''CSR:CN=example.com'')) =
     ExitJson \<lparr>r_backend = \<lparr>summary = Some ''CN=example.com'', csr_content = None\<rparr>,
               r_filename = ''/etc/ssl/csr/www.csr'', r_changed = False, r_backup_file = None\<rparr>"
  by (simp add: run_defs example_defs)

text \<open>
  C2, amended. Check mode is pure: a run in check mode, whatever the starting state and the
  requested state, ends with every file as it was: the target is neither written nor
  removed, and no backup file appears. And when the mode option, if given, holds permission
  bits only (it is below \<open>0o10000\<close>), the check run reports the change an apply run from
  the same starting state reports: whenever that run exits normally, so does the check run,
  with the same \<open>changed\<close>.
\<close>

theorem check_mode_pure:
  assumes "check_mode m"
  shows "files (snd (main (csr_backend C) E m w)) = files w \<and>
         ((\<forall>v. arg_mode m = Some v \<longrightarrow> v < 4096) \<longrightarrow>
          (\<forall>r' w'. main (csr_backend C) E (m\<lparr>check_mode := False\<rparr>) w = (ExitJson r', w') \<longrightarrow>
             (\<exists>r w''. main (csr_backend C) E m w = (ExitJson r, w'') \<and> r_changed r = r_changed r')))"
proof -
  have h: "\<And>b. select_backend (csr_backend C) = Inr b \<Longrightarrow>
          needs_regeneration (csr_backend C) (set_existing (csr_backend C) None b) = Inr True"
    by (simp add: csr_backend_def)
  have "\<exists>r w''. main (csr_backend C) E m w = (ExitJson r, w'') \<and> r_changed r = r_changed r'"
    if "\<forall>v. arg_mode m = Some v \<longrightarrow> v < 4096"
      and "main (csr_backend C) E (m\<lparr>check_mode := False\<rparr>) w = (ExitJson r', w')" for r' w'
    using check_mode_changed [OF assms _ h that(2)] that(1) by blast
  with main_check_files [OF assms] show ?thesis by blast
qed

theorem check_mode_pure_witness:
  "check_mode (example_module\<lparr>arg_mode := Some 384, check_mode := True\<rparr>) \<and>
   arg_mode (example_module\<lparr>arg_mode := Some 384, check_mode := True\<rparr>) = Some 384 \<and>
   (384 :: nat) < 4096 \<and>
   files (snd (main (csr_backend example_capability) example_env
                 (example_module\<lparr>arg_mode := Some 384, check_mode := True\<rparr>) (file_world ''junk''))) =
     files (file_world ''junk'') \<and>
   (\<exists>r' w'. main (csr_backend example_capability) example_env
               (example_module\<lparr>arg_mode := Some 384\<rparr>) (file_world ''junk'') = (ExitJson r', w') \<and>
      (\<exists>r w''. main (csr_backend example_capability) example_env
                 (example_module\<lparr>arg_mode := Some 384, check_mode := True\<rparr>) (file_world ''junk'') =
                   (ExitJson r, w'') \<and>
               r_changed r = r_changed r'))"
proof -
  let ?m = "example_module\<lparr>arg_mode := Some 384, check_mode := True\<rparr>"
  have 1: "check_mode ?m" by simp
  have 0: "\<forall>v. arg_mode ?m = Some v \<longrightarrow> v < 4096" by simp
  have e: "?m\<lparr>check_mode := False\<rparr> = example_module\<lparr>arg_mode := Some 384\<rparr>"
    by (simp add: example_module_def)
  obtain r' w' where 2: "main (csr_backend example_capability) example_env
      (example_module\<lparr>arg_mode := Some 384\<rparr>) (file_world ''junk'') = (ExitJson r', w')"
    by (simp add: run_defs example_defs)
  have 3: "arg_mode ?m = Some 384" "(384 :: nat) < 4096" by simp_all
  from check_mode_pure [OF 1, of example_capability example_env "file_world ''junk''"] 0 2
  show ?thesis unfolding e using 1 3 by blast
qed

text \<open>
  C7. Absent to absent: a run with state absent, when nothing is at the target path (the
  parent directory is there and a backend was selected), exits normally with
  \<open>changed = False\<close>; no file is created, so no backup file, and the output record has
  no \<open>backup_file\<close>, whatever the \<open>backup\<close> option and the mode.
\<close>
theorem absent_to_absent:
  assumes "state m = Absent" "files w (path m) = None"
    and "isdir E (base_dir m)" "path m \<notin> dirs E" "select_backend B = Inr b"
  shows "\<exists>r w'. main B E m w = (ExitJson r, w') \<and> \<not> r_changed r \<and> r_backup_file r = None \<and>
           files w' = files w"
  using assms
  by (simp add: main_def run_def init_def remove_def dump_def bind_io_def return_io_def
      backend_call_def log_def load_file_if_exists_def backup_local_def OpenSSLObject_remove_def
      exists_def Let_def)

theorem absent_to_absent_witness:
  "state (example_module\<lparr>state := Absent, backup := True\<rparr>) = Absent \<and>
   files empty_world (path (example_module\<lparr>state := Absent, backup := True\<rparr>)) = None \<and>
   isdir example_env (base_dir (example_module\<lparr>state := Absent, backup := True\<rparr>)) \<and>
   path (example_module\<lparr>state := Absent, backup := True\<rparr>) \<notin> dirs example_env \<and>
   select_backend (csr_backend example_capability) = Inr \<lparr>existing_csr_bytes = None, csr = None\<rparr> \<and>
   (\<exists>r w'. main (csr_backend example_capability) example_env
               (example_module\<lparr>state := Absent, backup := True\<rparr>) empty_world = (ExitJson r, w') \<and>
           \<not> r_changed r \<and> r_backup_file r = None \<and> files w' = files empty_world)"
proof -
  let ?m = "example_module\<lparr>state := Absent, backup := True\<rparr>"
  have 1: "state ?m = Absent" by simp
  have 2: "files empty_world (path ?m) = None" by (simp add: empty_world_def)
  have 3: "isdir example_env (base_dir ?m)"
    by (simp add: isdir_def base_dir_def dirname_def example_defs)
  have 4: "path ?m \<notin> dirs example_env" by (simp add: example_defs)
  have 5: "select_backend (csr_backend example_capability) = Inr \<lparr>existing_csr_bytes = None, csr = None\<rparr>"
    by (simp add: csr_backend_def)
  from absent_to_absent [OF 1 2 3 4 5] 1 2 3 4 5 show ?thesis by blast
qed

text \<open>
  C10. The summary of a removal is empty: \<open>remove\<close> clears the backend's existing
  artifact first, so in a run with state absent that exits normally the backend's part of
  the output record is that of a backend holding no artifact: no summary and no CSR
  content, also when \<open>return_content\<close> is set and a CSR was at the target path.
\<close>
theorem removal_summary_empty:
  assumes "state m = Absent" "main (csr_backend C) E m w = (ExitJson r, w')"
  shows "summary (r_backend r) = None \<and> csr_content (r_backend r) = None \<and>
         r_backend r = dump_backend (csr_backend C) (return_content m)
            \<lparr>existing_csr_bytes = None, csr = None\<rparr>"
proof -
  from assms(2) have run: "run (csr_backend C) E m w = (Inr r, w')" by (simp add: main_ExitJson)
  then obtain b self' where b: "select_backend (csr_backend C) = Inr b"
    and r: "r = dump (csr_backend C) m self'"
    and step: "remove (csr_backend C) E m (initial (csr_backend C) m w b)
                 (log EvLoad (log EvSelectBackend w)) = (Inr self', w')"
    using assms(1) by (auto elim!: run_Inr)
  have "module_backend self' = set_existing (csr_backend C) None (module_backend (initial (csr_backend C) m w b))"
  proof (cases "check_mode m")
    case True
    then show ?thesis using step by (auto simp: remove_check)
  next
    case False
    from remove_Inr [OF False step] show ?thesis by simp
  qed
  then show ?thesis using b r by (auto simp: dump_def csr_backend_def initial_def)
qed

theorem removal_summary_empty_witness:
  "state (example_module\<lparr>state := Absent, return_content := True\<rparr>) = Absent \<and>
   (\<exists>r w'. main (csr_backend example_capability) example_env
              (example_module\<lparr>state := Absent, return_content := True\<rparr>)
              (file_world ''CSR:CN=example.com'') = (ExitJson r, w') \<and>
           r_changed r \<and> summary (r_backend r) = None \<and> csr_content (r_backend r) = None)"
proof -
  let ?m = "example_module\<lparr>state := Absent, return_content := True\<rparr>"
  have 1: "state ?m = Absent" by simp
  obtain r w' where 2: "main (csr_backend example_capability) example_env ?m
      (file_world ''CSR:CN=example.com'') = (ExitJson r, w')" and 3: "r_changed r"
    by (simp add: run_defs example_defs)
  from removal_summary_empty [OF 1 2] 1 2 3 show ?thesis by blast
qed

text \<open>
  C9. Attribute changes outside the regeneration decision: an apply run with state present
  that does not regenerate (force off, the backend reports that the existing artifact
  satisfies the specification) still sets owner, group and permission bits of the target
  file to the ones asked for. Where reading and changing the file do not fail, it exits
  normally, reports a change exactly when the owner, the group or the permission bits are
  not those the file had, writes nothing, and leaves the bytes of the file and every other
  file as they were.
\<close>

theorem attributes_without_regeneration:
  assumes "state m = Present" "\<not> check_mode m" "\<not> force m"
    and "isdir E (base_dir m)" "path m \<notin> dirs E" "select_backend B = Inr b"
    and "files w (path m) = Some f" "load_fault E = None"
    and "needs_regeneration B (set_existing B (Some (content f)) b) = Inr False"
    and "write_fault E = None"
  shows "\<exists>r w'. main B E m w = (ExitJson r, w') \<and>
           r_changed r = (wanted_attrs m (attrs f) \<noteq> attrs f) \<and>
           files w' = (files w)(path m \<mapsto> f\<lparr>attrs := wanted_attrs m (attrs f)\<rparr>) \<and>
           (EvWrite \<in> set (trace w') \<longleftrightarrow> EvWrite \<in> set (trace w))"
  using run_no_regeneration [OF assms] by blast

theorem attributes_without_regeneration_witness:
  "state (example_module\<lparr>arg_mode := Some 384\<rparr>) = Present \<and>
   \<not> check_mode (example_module\<lparr>arg_mode := Some 384\<rparr>) \<and>
   \<not> force (example_module\<lparr>arg_mode := Some 384\<rparr>) \<and>
   isdir example_env (base_dir (example_module\<lparr>arg_mode := Some 384\<rparr>)) \<and>
   path (example_module\<lparr>arg_mode := Some 384\<rparr>) \<notin> dirs example_env \<and>
   load_fault example_env = None \<and> write_fault example_env = None \<and>
   (\<exists>r w'. main (csr_backend example_capability) example_env (example_module\<lparr>arg_mode := Some 384\<rparr>)
              (file_world ''CSR:CN=example.com'') = (ExitJson r, w') \<and>
           r_changed r \<and> EvWrite \<notin> set (trace w') \<and>
           files w' = [''/etc/ssl/csr/www.csr'' \<mapsto>
              \<lparr>content = ''CSR:CN=example.com'',
                 attrs = \<lparr>f_uid = 0, f_gid = 0, f_mode = 33152\<rparr>\<rparr>])"
proof -
  let ?m = "example_module\<lparr>arg_mode := Some 384\<rparr>"
  let ?f = "\<lparr>content = ''CSR:CN=example.com'', attrs = root_attrs\<rparr>"
  have 1: "state ?m = Present" and 2: "\<not> check_mode ?m" and 3: "\<not> force ?m"
    by (simp_all add: example_module_def)
  have 4: "isdir example_env (base_dir ?m)" by (simp add: isdir_def base_dir_def dirname_def example_defs)
  have 5: "path ?m \<notin> dirs example_env" by (simp add: example_defs)
  have 7: "files (file_world ''CSR:CN=example.com'') (path ?m) = Some ?f"
    by (simp add: example_defs)
  have 8: "load_fault example_env = None" and 10: "write_fault example_env = None"
    by (simp_all add: example_env_def)
  have 9: "needs_regeneration (csr_backend example_capability)
             (set_existing (csr_backend example_capability) (Some (content ?f))
                \<lparr>existing_csr_bytes = None, csr = None\<rparr>) = Inr False"
    by (simp add: csr_backend_def example_capability_def)
  from attributes_without_regeneration [OF 1 2 3 4 5 csr_backend_select 7 8 9 10]
  obtain r w' where "main (csr_backend example_capability) example_env ?m
        (file_world ''CSR:CN=example.com'') = (ExitJson r, w')"
    "r_changed r = (wanted_attrs ?m (attrs ?f) \<noteq> attrs ?f)"
    "files w' = (files (file_world ''CSR:CN=example.com''))(path ?m \<mapsto> ?f\<lparr>attrs := wanted_attrs ?m (attrs ?f)\<rparr>)"
    "EvWrite \<in> set (trace w') \<longleftrightarrow> EvWrite \<in> set (trace (file_world ''CSR:CN=example.com''))"
    by blast
  then have "main (csr_backend example_capability) example_env ?m
        (file_world ''CSR:CN=example.com'') = (ExitJson r, w') \<and> r_changed r \<and>
      EvWrite \<notin> set (trace w') \<and>
      files w' = [''/etc/ssl/csr/www.csr'' \<mapsto>
              \<lparr>content = ''CSR:CN=example.com'',
                 attrs = \<lparr>f_uid = 0, f_gid = 0, f_mode = 33152\<rparr>\<rparr>]"
    by (simp add: wanted_attrs_def chmod_def S_IMODE_def example_defs)
  with 1 2 3 4 5 8 10 show ?thesis by blast
qed

text \<open>
  C5. A corrupt file heals: when the target holds bytes that cannot be parsed as a CSR and
  the state is present, the parse failure raises nothing: the backend reports that
  regeneration is needed, and an apply run (the backend builds the CSR, and reading, backup
  and writing do not fail) exits normally with \<open>changed = True\<close>, the target holding the
  newly serialized CSR.
\<close>

theorem corrupt_file_regenerated:
  assumes "state m = Present" "\<not> check_mode m"
    and "isdir E (base_dir m)" "path m \<notin> dirs E"
    and f: "files w (path m) = Some f" and p: "parse C (content f) = None"
    and "load_fault E = None" and b: "build C = Inr c"
    and "write_fault E = None" "backup m \<longrightarrow> backup_fault E = None"
  shows "regeneration_decision (csr_backend C) m w \<and>
         (\<exists>r w'. main (csr_backend C) E m w = (ExitJson r, w') \<and> r_changed r \<and>
                 existing_bytes m w' = Some (serialize C c) \<and> EvWrite \<in> set (trace w'))"
proof -
  let ?B = "csr_backend C"
  let ?b0 = "\<lparr>existing_csr_bytes = None, csr = None\<rparr> :: 'a backend_state"
  have n: "needs_regeneration ?B (set_existing ?B (existing_bytes m w) ?b0) = Inr True"
    using f p by (simp add: csr_backend_def existing_bytes_def)
  have g: "generate_csr ?B (set_existing ?B (existing_bytes m w) ?b0) =
             Inr \<lparr>existing_csr_bytes = existing_bytes m w, csr = Some c\<rparr>"
    using b by (simp add: csr_backend_def)
  have d: "get_csr_data ?B \<lparr>existing_csr_bytes = existing_bytes m w, csr = Some c\<rparr> = Inr (serialize C c)"
    by (simp add: csr_backend_def)
  from run_regeneration [OF assms(1-4) csr_backend_select _ _ g d assms(9)] n assms(7,10)
  obtain r w' a where "main ?B E m w = (ExitJson r, w')" "r_changed r"
    "files w' (path m) = Some \<lparr>content = serialize C c, attrs = wanted_attrs m a\<rparr>"
    "EvWrite \<in> set (trace w')" by blast
  moreover have "regeneration_decision ?B m w"
    using n by (simp add: regeneration_decision_def csr_backend_select)
  ultimately show ?thesis by (auto simp: existing_bytes_def)
qed

theorem corrupt_file_regenerated_witness:
  "state (example_module\<lparr>backup := True\<rparr>) = Present \<and>
   \<not> check_mode (example_module\<lparr>backup := True\<rparr>) \<and>
   isdir example_env (base_dir (example_module\<lparr>backup := True\<rparr>)) \<and>
   path (example_module\<lparr>backup := True\<rparr>) \<notin> dirs example_env \<and>
   parse example_capability ''junk'' = None \<and>
   build example_capability = Inr ''CN=example.com'' \<and>
   load_fault example_env = None \<and> write_fault example_env = None \<and> backup_fault example_env = None \<and>
   (\<exists>r w'. main (csr_backend example_capability) example_env (example_module\<lparr>backup := True\<rparr>)
              (file_world ''junk'') = (ExitJson r, w') \<and>
           r_changed r \<and>
           existing_bytes (example_module\<lparr>backup := True\<rparr>) w' = Some ''CSR:CN=example.com'')"
proof -
  let ?m = "example_module\<lparr>backup := True\<rparr>"
  let ?f = "\<lparr>content = ''junk'', attrs = root_attrs\<rparr>"
  have 1: "state ?m = Present" and 2: "\<not> check_mode ?m" by (simp_all add: example_module_def)
  have 3: "isdir example_env (base_dir ?m)" by (simp add: isdir_def base_dir_def dirname_def example_defs)
  have 4: "path ?m \<notin> dirs example_env" by (simp add: example_defs)
  have 5: "files (file_world ''junk'') (path ?m) = Some ?f" by (simp add: example_defs)
  have 6: "parse example_capability (content ?f) = None" by (simp add: example_capability_def)
  have 7: "load_fault example_env = None" and 9: "write_fault example_env = None"
    and 10: "backup_fault example_env = None" by (simp_all add: example_env_def)
  have 8: "build example_capability = Inr ''CN=example.com''" by (simp add: example_capability_def)
  have 11: "backup ?m \<longrightarrow> backup_fault example_env = None" using 10 by simp
  have s: "serialize example_capability ''CN=example.com'' = ''CSR:CN=example.com''"
    by (simp add: example_capability_def)
  have p6: "parse example_capability ''junk'' = None" by (simp add: example_capability_def)
  from corrupt_file_regenerated [OF 1 2 3 4 5 6 7 8 9 11] 1 2 3 4 p6 7 8 9 10
  show ?thesis unfolding s by blast
qed

text \<open>
  C1. Applying twice, as stated, fails: with force on the second run reports a change again,
  and from a target that already matches the first run reports none.
\<close>

theorem apply_twice_counterexample:
  "fst (main (csr_backend example_capability) example_env (example_module\<lparr>force := True\<rparr>)
         (snd (main (csr_backend example_capability) example_env (example_module\<lparr>force := True\<rparr>)
                 empty_world))) =
     ExitJson \<lparr>r_backend = \<lparr>summary = Some ''CN=example.com'', csr_content = None\<rparr>,
               r_filename = ''/etc/ssl/csr/www.csr'', r_changed = True, r_backup_file = None\<rparr> \<and>
   fst (main (csr_backend example_capability) example_env example_module
         (file_world ''CSR:CN=example.com'')) =
     ExitJson \<lparr>r_backend = \<lparr>summary = Some ''CN=example.com'', csr_content = None\<rparr>,
               r_filename = ''/etc/ssl/csr/www.csr'', r_changed = False, r_backup_file = None\<rparr>"
  by (simp add: run_defs example_defs)

text \<open>
  C1, amended. With force off, from a target that does not hold a matching artifact, where
  reading, backup and writing do not fail and the backend builds a CSR whose serialized bytes
  parse to a CSR that matches: the first apply run exits normally with \<open>changed = True\<close> and
  leaves the serialized CSR at the target; the second exits normally with
  \<open>changed = False\<close> and leaves every file as the first run left it.
\<close>

theorem apply_twice:
  assumes "state m = Present" "\<not> check_mode m" and nf: "\<not> force m"
    and "isdir E (base_dir m)" "path m \<notin> dirs E"
    and lf: "load_fault E = None" and "write_fault E = None" and bk: "backup m \<longrightarrow> backup_fault E = None"
    and b: "build C = Inr c" and rt: "parse C (serialize C c) = Some c'" "matches C c'"
    and st: "needs_new C m w"
  shows "\<exists>r1 w1 r2 w2.
           main (csr_backend C) E m w = (ExitJson r1, w1) \<and> r_changed r1 \<and>
           main (csr_backend C) E m w1 = (ExitJson r2, w2) \<and> \<not> r_changed r2 \<and>
           files w2 = files w1 \<and> existing_bytes m w1 = Some (serialize C c)"
proof -
  let ?B = "csr_backend C"
  let ?b0 = "\<lparr>existing_csr_bytes = None, csr = None\<rparr> :: 'a backend_state"
  have n: "needs_regeneration ?B (set_existing ?B (existing_bytes m w) ?b0) = Inr True"
    using st by (simp add: csr_backend_def existing_bytes_def needs_new_def split: option.splits)
  have g: "generate_csr ?B (set_existing ?B (existing_bytes m w) ?b0) =
             Inr \<lparr>existing_csr_bytes = existing_bytes m w, csr = Some c\<rparr>"
    using b by (simp add: csr_backend_def)
  have d: "get_csr_data ?B \<lparr>existing_csr_bytes = existing_bytes m w, csr = Some c\<rparr> = Inr (serialize C c)"
    by (simp add: csr_backend_def)
  from run_regeneration [OF assms(1,2,4,5) csr_backend_select _ _ g d assms(7)] n lf bk
  obtain r1 w1 a where 1: "main ?B E m w = (ExitJson r1, w1)" "r_changed r1"
    and f1: "files w1 (path m) = Some \<lparr>content = serialize C c, attrs = wanted_attrs m a\<rparr>"
    by blast
  let ?f = "\<lparr>content = serialize C c, attrs = wanted_attrs m a\<rparr>"
  have n2: "needs_regeneration ?B (set_existing ?B (Some (content ?f)) ?b0) = Inr False"
    using rt by (simp add: csr_backend_def)
  from run_no_regeneration [OF assms(1,2) nf assms(4,5) csr_backend_select f1 lf n2 assms(7)]
  obtain r2 w2 where 2: "main ?B E m w1 = (ExitJson r2, w2)"
    and c2: "r_changed r2 = (wanted_attrs m (attrs ?f) \<noteq> attrs ?f)"
    and f2: "files w2 = (files w1)(path m \<mapsto> ?f\<lparr>attrs := wanted_attrs m (attrs ?f)\<rparr>)"
    by blast
  have "\<not> r_changed r2" using c2 by simp
  moreover have "files w2 = files w1" using f2 f1 by (simp add: fun_upd_idem)
  moreover have "existing_bytes m w1 = Some (serialize C c)" using f1 by (simp add: existing_bytes_def)
  ultimately show ?thesis using 1 2 by blast
qed

theorem apply_twice_witness:
  "state example_module = Present \<and> \<not> check_mode example_module \<and> \<not> force example_module \<and>
   isdir example_env (base_dir example_module) \<and> path example_module \<notin> dirs example_env \<and>
   load_fault example_env = None \<and> write_fault example_env = None \<and> backup_fault example_env = None \<and>
   build example_capability = Inr ''CN=example.com'' \<and>
   parse example_capability (serialize example_capability ''CN=example.com'') = Some ''CN=example.com'' \<and>
   matches example_capability ''CN=example.com'' \<and>
   needs_new example_capability example_module empty_world \<and>
   (\<exists>r1 w1 r2 w2.
      main (csr_backend example_capability) example_env example_module empty_world = (ExitJson r1, w1) \<and>
      r_changed r1 \<and>
      main (csr_backend example_capability) example_env example_module w1 = (ExitJson r2, w2) \<and>
      \<not> r_changed r2 \<and> files w2 = files w1 \<and>
      existing_bytes example_module w1 = Some ''CSR:CN=example.com'')"
proof -
  have 1: "state example_module = Present" and 2: "\<not> check_mode example_module"
    and 3: "\<not> force example_module" by (simp_all add: example_module_def)
  have 4: "isdir example_env (base_dir example_module)"
    by (simp add: isdir_def base_dir_def dirname_def example_defs)
  have 5: "path example_module \<notin> dirs example_env" by (simp add: example_defs)
  have 6: "load_fault example_env = None" and 7: "write_fault example_env = None"
    and 8: "backup_fault example_env = None" by (simp_all add: example_env_def)
  have 9: "build example_capability = Inr ''CN=example.com''" by (simp add: example_capability_def)
  have 10: "parse example_capability (serialize example_capability ''CN=example.com'') = Some ''CN=example.com''"
    and 11: "matches example_capability ''CN=example.com''" by (simp_all add: example_capability_def)
  have 12: "needs_new example_capability example_module empty_world"
    by (simp add: needs_new_def empty_world_def)
  have 13: "backup example_module \<longrightarrow> backup_fault example_env = None" using 8 by simp
  have s: "serialize example_capability ''CN=example.com'' = ''CSR:CN=example.com''"
    by (simp add: example_capability_def)
  from apply_twice [OF 1 2 3 4 5 6 7 13 9 10 11 12] 1 2 3 4 5 6 7 8 9 10 11 12
  show ?thesis unfolding s by blast
qed

text \<open>
  C6. Backend errors are fatal: when a backend call of the run raises
  \<open>OpenSSLObjectError\<close>, the run ends with \<open>fail_json\<close> carrying exactly the message
  of the error, so with no output record, and every file is as it was before the run: nothing
  was written, removed or backed up.
\<close>

theorem backend_error_fatal:
  assumes dir: "isdir E (base_dir m)" and p: "path m \<notin> dirs E"
    and l: "files w (path m) = None \<or> load_fault E = None"
    and e: "backend_error B m (existing_bytes m w) = Some (OpenSSLObjectError msg)"
  shows "\<exists>w'. main B E m w = (FailJson None msg, w') \<and> files w' = files w"
proof (cases "select_backend B")
  case (Inl x)
  with e have "x = OpenSSLObjectError msg" by (simp add: backend_error_def)
  with Inl have "run B E m w = (Inl (OpenSSLObjectError msg), log EvSelectBackend w)"
    by (simp add: run_def bind_io_def backend_call_def)
  from main_OpenSSLObjectError [OF dir this] show ?thesis by (simp add: log_def)
next
  case (Inr b)
  let ?w1 = "log EvLoad (log EvSelectBackend w)"
  let ?i = "initial B m w b"
  let ?e = "OpenSSLObjectError msg"
  have mb: "module_backend ?i = set_existing B (existing_bytes m w) b" by (simp add: initial_def)
  from e Inr have pr: "state m = Present" by (auto simp: backend_error_def split: if_splits)
  have "\<exists>w'. regenerate B E m ?i ?w1 = (Inl ?e, w') \<and> files w' = files w"
  proof (cases "force m")
    case True
    with e Inr pr have nc: "\<not> check_mode m" and
      g: "(case generate_csr B (module_backend ?i) of
              Inl e \<Rightarrow> Some e
            | Inr b' \<Rightarrow> (case get_csr_data B b' of Inl e \<Rightarrow> Some e | Inr result \<Rightarrow> None)) = Some ?e"
      by (auto simp: backend_error_def mb split: if_splits)
    from generate_apply_backend_error [OF g, of E m ?w1] obtain w' where
      "generate_apply B E m ?i ?w1 = (Inl ?e, w')" "files w' = files ?w1" by blast
    then show ?thesis using True nc
      by (simp add: regenerate_def bind_io_def return_io_def log_def)
  next
    case False
    show ?thesis
    proof (cases "needs_regeneration B (module_backend ?i)")
      case (Inl x)
      with e Inr pr False have "x = ?e" by (simp add: backend_error_def mb)
      then show ?thesis using False Inl
        by (simp add: regenerate_def bind_io_def backend_call_def log_def)
    next
      case r: (Inr regen)
      with e Inr pr False have nc: "\<not> check_mode m" and rg: regen and
        g: "(case generate_csr B (module_backend ?i) of
              Inl e \<Rightarrow> Some e
            | Inr b' \<Rightarrow> (case get_csr_data B b' of Inl e \<Rightarrow> Some e | Inr result \<Rightarrow> None)) = Some ?e"
        by (auto simp: backend_error_def mb split: if_splits)
      from generate_apply_backend_error [OF g, of E m "log EvCompare ?w1"] obtain w' where
        "generate_apply B E m ?i (log EvCompare ?w1) = (Inl ?e, w')" "files w' = files (log EvCompare ?w1)"
        by blast
      then show ?thesis using False nc rg r
        by (simp add: regenerate_def bind_io_def backend_call_def return_io_def log_def)
    qed
  qed
  then obtain w' where "regenerate B E m ?i ?w1 = (Inl ?e, w')" and f: "files w' = files w" by blast
  then have "run B E m w = (Inl ?e, w')"
    using pr by (simp add: run_start [OF Inr p l] generate_def bind_io_def)
  from main_OpenSSLObjectError [OF dir this] f show ?thesis by blast
qed

theorem backend_error_fatal_witness:
  "isdir example_env (base_dir example_module) \<and> path example_module \<notin> dirs example_env \<and>
   files empty_world (path example_module) = None \<and>
   backend_error (csr_backend (example_capability\<lparr>build := Inl (OpenSSLObjectError ''key unavailable'')\<rparr>))
     example_module (existing_bytes example_module empty_world) =
     Some (OpenSSLObjectError ''key unavailable'') \<and>
   (\<exists>w'. main (csr_backend (example_capability\<lparr>build := Inl (OpenSSLObjectError ''key unavailable'')\<rparr>))
            example_env example_module empty_world = (FailJson None ''key unavailable'', w') \<and>
         files w' = files empty_world)"
proof -
  let ?B = "csr_backend (example_capability\<lparr>build := Inl (OpenSSLObjectError ''key unavailable'')\<rparr>)"
  have 1: "isdir example_env (base_dir example_module)"
    by (simp add: isdir_def base_dir_def dirname_def example_defs)
  have 2: "path example_module \<notin> dirs example_env" by (simp add: example_defs)
  have 3: "files empty_world (path example_module) = None" by (simp add: empty_world_def)
  then have 4: "files empty_world (path example_module) = None \<or> load_fault example_env = None" ..
  have 5: "backend_error ?B example_module (existing_bytes example_module empty_world) =
             Some (OpenSSLObjectError ''key unavailable'')"
    by (simp add: backend_error_def existing_bytes_def csr_backend_def example_defs)
  from backend_error_fatal [OF 1 2 4 5] 1 2 3 5 show ?thesis by blast
qed

text \<open>
  C4. Backup before destruction: in an apply run with the backup option, every write and
  every removal in the trace of the run comes after the backup has completed. And when the
  backup fails (there is a file to copy, and copying fails), nothing is written or removed,
  the target holds the bytes it held, and a run that had to write or remove (state absent, or
  regeneration decided) does not exit normally.
\<close>

theorem backup_before_destruction:
  assumes "backup m" "\<not> check_mode m" "trace w = []"
  shows "backup_precedes False (trace (snd (main B E m w))) \<and>
         (backup_fault E \<noteq> None \<and> files w (path m) \<noteq> None \<longrightarrow>
            EvWrite \<notin> set (trace (snd (main B E m w))) \<and>
            EvRemove \<notin> set (trace (snd (main B E m w))) \<and>
            existing_bytes m (snd (main B E m w)) = existing_bytes m w \<and>
            (state m = Absent \<or> regeneration_decision B m w \<longrightarrow>
               (\<forall>r. fst (main B E m w) \<noteq> ExitJson r)))"
proof -
  let ?w' = "snd (main B E m w)"
  have 2: "EvWrite \<notin> set (trace ?w') \<and> EvRemove \<notin> set (trace ?w') \<and>
           existing_bytes m ?w' = existing_bytes m w \<and>
           (state m = Absent \<or> regeneration_decision B m w \<longrightarrow> (\<forall>r. fst (main B E m w) \<noteq> ExitJson r))"
    if bf: "backup_fault E \<noteq> None" and f: "files w (path m) \<noteq> None"
  proof -
    have u: "undisturbed (path m) w ?w'"
    proof (cases "isdir E (base_dir m)")
      case True
      then show ?thesis using und_run [OF assms(1,2) bf, of B] by (simp add: main_snd keeps_def)
    next
      case False
      then show ?thesis by (simp add: main_snd undisturbed_def)
    qed
    with f assms(3) have a: "EvWrite \<notin> set (trace ?w')" "EvRemove \<notin> set (trace ?w')"
      and c: "existing_bytes m ?w' = existing_bytes m w"
      by (auto simp: undisturbed_def existing_bytes_def)
    have "fst (main B E m w) \<noteq> ExitJson r" if d: "state m = Absent \<or> regeneration_decision B m w" for r
    proof
      assume "fst (main B E m w) = ExitJson r"
      then have e: "main B E m w = (ExitJson r, ?w')" by (cases "main B E m w") simp
      show False
      proof (cases "state m")
        case Present
        have "EvWrite \<notin> set (trace w)" using assms(3) by simp
        from present_run_decision [OF Present e this] assms(2) a(1) d Present
        show False by auto
      next
        case Absent
        from e have "run B E m w = (Inr r, ?w')" by (simp add: main_ExitJson)
        then obtain b self' where
          "remove B E m (initial B m w b) (log EvLoad (log EvSelectBackend w)) = (Inr self', ?w')"
          using Absent by (auto elim!: run_Inr)
        from remove_Inr [OF assms(2) this] have "files ?w' (path m) = None" by simp
        then show False using c f by (auto simp: existing_bytes_def)
      qed
    qed
    with a c show ?thesis by blast
  qed
  from main_ordered [OF assms, of B E] 2 show ?thesis by blast
qed

theorem backup_before_destruction_witness:
  "backup (example_module\<lparr>backup := True\<rparr>) \<and> \<not> check_mode (example_module\<lparr>backup := True\<rparr>) \<and>
   trace (file_world ''junk'') = [] \<and>
   backup_fault (example_env\<lparr>backup_fault := Some ''disk full''\<rparr>) \<noteq> None \<and>
   files (file_world ''junk'') (path (example_module\<lparr>backup := True\<rparr>)) \<noteq> None \<and>
   regeneration_decision (csr_backend example_capability) (example_module\<lparr>backup := True\<rparr>)
     (file_world ''junk'') \<and>
   backup_precedes False
     (trace (snd (main (csr_backend example_capability) example_env
                    (example_module\<lparr>backup := True\<rparr>) (file_world ''junk'')))) \<and>
   trace (snd (main (csr_backend example_capability) example_env
                 (example_module\<lparr>backup := True\<rparr>) (file_world ''junk''))) =
     [EvSelectBackend, EvLoad, EvCompare, EvGenerate, EvGenerate, EvBackup, EvWrite] \<and>
   EvWrite \<notin> set (trace (snd (main (csr_backend example_capability)
                    (example_env\<lparr>backup_fault := Some ''disk full''\<rparr>)
                    (example_module\<lparr>backup := True\<rparr>) (file_world ''junk'')))) \<and>
   existing_bytes (example_module\<lparr>backup := True\<rparr>)
     (snd (main (csr_backend example_capability) (example_env\<lparr>backup_fault := Some ''disk full''\<rparr>)
            (example_module\<lparr>backup := True\<rparr>) (file_world ''junk''))) = Some ''junk'' \<and>
   fst (main (csr_backend example_capability) (example_env\<lparr>backup_fault := Some ''disk full''\<rparr>)
          (example_module\<lparr>backup := True\<rparr>) (file_world ''junk'')) =
     FailJson None
       ''Could not make backup of /etc/ssl/csr/www.csr to /etc/ssl/csr/www.csr.4242.2019-03-09@11:22:33~: disk full''"
proof -
  let ?m = "example_module\<lparr>backup := True\<rparr>"
  let ?w = "file_world ''junk''"
  let ?E = "example_env\<lparr>backup_fault := Some ''disk full''\<rparr>"
  let ?B = "csr_backend example_capability"
  have 1: "backup ?m" and 2: "\<not> check_mode ?m" by (simp_all add: example_module_def)
  have 3: "trace ?w = []" by (simp add: file_world_def)
  have 4: "backup_fault ?E \<noteq> None" by simp
  have 5: "files ?w (path ?m) \<noteq> None" by (simp add: example_defs)
  have 6: "regeneration_decision ?B ?m ?w"
    by (simp add: regeneration_decision_def existing_bytes_def csr_backend_def example_defs)
  have 7: "existing_bytes ?m ?w = Some ''junk''" by (simp add: existing_bytes_def example_defs)
  have 8: "trace (snd (main ?B example_env ?m ?w)) =
      [EvSelectBackend, EvLoad, EvCompare, EvGenerate, EvGenerate, EvBackup, EvWrite]"
    by (simp add: run_defs example_defs)
  have 9: "fst (main ?B ?E ?m ?w) = FailJson None
       ''Could not make backup of /etc/ssl/csr/www.csr to /etc/ssl/csr/www.csr.4242.2019-03-09@11:22:33~: disk full''"
    by (simp add: run_defs example_defs)
  from backup_before_destruction [OF 1 2 3, of ?B example_env]
  have a: "backup_precedes False (trace (snd (main ?B example_env ?m ?w)))" by blast
  from backup_before_destruction [OF 1 2 3, of ?B ?E] 4 5
  have b: "EvWrite \<notin> set (trace (snd (main ?B ?E ?m ?w)))"
    "existing_bytes ?m (snd (main ?B ?E ?m ?w)) = existing_bytes ?m ?w" by blast+
  from 1 2 3 4 5 6 a 8 b 9 show ?thesis unfolding 7 by blast
qed

end
